theory Spec2Isabelle
  imports Complex_Main "HOL-Library.Multiset"
begin

section \<open>JavaScript values used by the framework\<close>

text \<open>
  The TypeScript sources manipulate strings, numbers, plain objects and values of type
  \<open>any\<close>. Strings are \<open>string\<close>; the integers the code computes with are \<open>int\<close>;
  an object used as a dictionary (\<open>Record<string, string>\<close>) is a map; a value of
  type \<open>any\<close> that travels as a request or response body is a \<open>json\<close> value, and
  \<open>undefined\<close> is \<open>None\<close> of an option type.
\<close>

datatype json =
    JNull
  | JBool bool
  | JNumber int
  | JString string
  | JArray "json list"
  | JObject "(string \<times> json) list"

text \<open>JavaScript truthiness, as tested by \<open>if (data)\<close>.\<close>

fun truthy :: "json \<Rightarrow> bool" where
  "truthy JNull = False"
| "truthy (JBool b) = b"
| "truthy (JNumber n) = (n \<noteq> 0)"
| "truthy (JString s) = (s \<noteq> [])"
| "truthy (JArray xs) = True"
| "truthy (JObject kvs) = True"

text \<open>\<open>String.prototype.includes\<close>: does \<open>pat\<close> occur in \<open>s\<close> as a contiguous piece.\<close>

fun str_includes :: "string \<Rightarrow> string \<Rightarrow> bool" where
  "str_includes [] pat = (pat = [])"
| "str_includes (c # cs) pat = (take (length pat) (c # cs) = pat \<or> str_includes cs pat)"

text \<open>\<open>toUpperCase\<close> and \<open>toLowerCase\<close> on the ASCII letters (other characters stay).\<close>

definition lower_letters :: string where
  "lower_letters = ''abcdefghijklmnopqrstuvwxyz''"

definition upper_letters :: string where
  "upper_letters = ''ABCDEFGHIJKLMNOPQRSTUVWXYZ''"

definition toUpperCase :: "string \<Rightarrow> string" where
  "toUpperCase s =
     map (\<lambda>c. case map_of (zip lower_letters upper_letters) c of None \<Rightarrow> c | Some u \<Rightarrow> u) s"

definition toLowerCase :: "string \<Rightarrow> string" where
  "toLowerCase s =
     map (\<lambda>c. case map_of (zip upper_letters lower_letters) c of None \<Rightarrow> c | Some l \<Rightarrow> l) s"

text \<open>Decimal rendering of an integer, as a template literal \<open>`${n}`\<close> produces it.\<close>

fun show_nat :: "nat \<Rightarrow> string" where
  "show_nat n =
     (if n < 10 then [''0123456789'' ! n]
      else show_nat (n div 10) @ [''0123456789'' ! (n mod 10)])"

declare show_nat.simps [simp del]

definition show_int :: "int \<Rightarrow> string" where
  "show_int i = (if i < 0 then ''-'' @ show_nat (nat (- i)) else show_nat (nat i))"

section \<open>The HTTP transport the API client runs on\<close>

text \<open>
  \<open>api-client.ts\<close> wraps the request context of the browser-automation library. That
  library is not part of the repository, so it appears here as a \<open>platform\<close>: a record
  of oracles answering each call the client makes, given the history of effects so far.
  A rejected promise or a thrown exception of the library is \<open>Inl\<close> of its message.
\<close>

datatype log_level = DEBUG | INFO | WARN | ERROR

datatype http_verb = GET | POST | PUT | PATCH | DELETE

datatype form_part = ReadStream string | FormValue json

text \<open>The options object handed to \<open>context.get/post/put/patch/delete\<close>.\<close>

record requestOptions =
  ro_headers :: "(string \<rightharpoonup> string) option"
  ro_timeout :: "int option"
  ro_data :: "json option"
  ro_multipart :: "(string \<rightharpoonup> form_part) option"

text \<open>
  What the library's response object answers: \<open>status()\<close>, \<open>headers()\<close>, \<open>ok()\<close>, and
  the two body readers \<open>json()\<close> and \<open>text()\<close>, each of which may throw.
\<close>

record APIResponse =
  resp_status :: int
  resp_headers :: "string \<rightharpoonup> string"
  resp_ok :: bool
  resp_json :: "string + json"
  resp_text :: "string + string"

text \<open>
  Everything the client does to the outside world, in the order it happens: calls of the
  logger, opening and disposing a context, a request sent on a context, and a
  \<open>setTimeout\<close> pause.
\<close>

datatype effect =
    Log log_level string
  | NewContext string "string \<rightharpoonup> string"
  | DisposeContext nat
  | Request nat http_verb string requestOptions
  | SetTimeout int

record platform =
  newContext :: "effect list \<Rightarrow> string \<Rightarrow> (string \<rightharpoonup> string) \<Rightarrow> string + nat"
  disposeContext :: "effect list \<Rightarrow> nat \<Rightarrow> string option"
  send :: "effect list \<Rightarrow> nat \<Rightarrow> http_verb \<Rightarrow> string \<Rightarrow> requestOptions \<Rightarrow> string + APIResponse"
  urlSearchParams :: "(string \<times> string) list \<Rightarrow> string"

text \<open>
  Modelled from the spec: the library's \<open>ok()\<close> is not in the repository; the spec
  describes it as "an ok flag derived from the status code's success range", the range
  200 to 299.
\<close>

definition ok_from_status :: "APIResponse \<Rightarrow> bool" where
  "ok_from_status r = (resp_ok r = (200 \<le> resp_status r \<and> resp_status r \<le> 299))"

section \<open>The API client (\<open>src/api/api-client.ts\<close>)\<close>

text \<open>The envelope \<open>ApiResponse<T>\<close> returned by every operation.\<close>

record ApiResponse =
  status :: int
  headers :: "string \<rightharpoonup> string"
  data :: json
  ok :: bool

text \<open>The interface \<open>RequestOptions\<close>; every field is optional.\<close>

record RequestOptions =
  opt_headers :: "(string \<rightharpoonup> string) option"
  opt_data :: "json option"
  opt_params :: "(string \<times> string) list option"
  opt_timeout :: "int option"

definition no_options :: RequestOptions where
  "no_options = \<lparr>opt_headers = None, opt_data = None, opt_params = None, opt_timeout = None\<rparr>"

text \<open>
  The private fields of the class. \<open>api_context\<close> is the field \<open>context\<close>: \<open>None\<close> is
  \<open>null\<close>, \<open>Some h\<close> an open context with handle \<open>h\<close>. The logger field only writes
  to the console; its calls are recorded as \<open>Log\<close> effects.
\<close>

record ApiClient =
  api_context :: "nat option"
  baseURL :: string
  defaultHeaders :: "string \<rightharpoonup> string"

text \<open>The errors the client throws itself, and a fault passed on from the transport.\<close>

datatype error =
    NotInitialized
  | UnsupportedMethod string
  | NotReady
  | Fault string

definition error_message :: "error \<Rightarrow> string" where
  "error_message e =
     (case e of
        NotInitialized \<Rightarrow> ''API client not initialized''
      | UnsupportedMethod m \<Rightarrow> ''Unsupported HTTP method: '' @ m
      | NotReady \<Rightarrow> ''API failed to become ready within timeout''
      | Fault m \<Rightarrow> m)"

definition new_ApiClient :: "string \<Rightarrow> (string \<rightharpoonup> string) \<Rightarrow> ApiClient" where
  "new_ApiClient url hdrs =
     \<lparr>api_context = None,
      baseURL = url,
      defaultHeaders =
        [''Content-Type'' \<mapsto> ''application/json'', ''Accept'' \<mapsto> ''application/json''] ++ hdrs\<rparr>"

definition init ::
  "platform \<Rightarrow> ApiClient \<Rightarrow> effect list \<Rightarrow> (error + unit) \<times> ApiClient \<times> effect list" where
  "init P c t =
     (case newContext P t (baseURL c) (defaultHeaders c) of
        Inl f \<Rightarrow> (Inl (Fault f), c, t @ [NewContext (baseURL c) (defaultHeaders c)])
      | Inr h \<Rightarrow>
          (Inr (), c\<lparr>api_context := Some h\<rparr>,
           t @ [NewContext (baseURL c) (defaultHeaders c),
                Log INFO (''API client initialized with baseURL: '' @ baseURL c)]))"

definition dispose ::
  "platform \<Rightarrow> ApiClient \<Rightarrow> effect list \<Rightarrow> (error + unit) \<times> ApiClient \<times> effect list" where
  "dispose P c t =
     (case api_context c of
        None \<Rightarrow> (Inr (), c, t)
      | Some h \<Rightarrow>
          (case disposeContext P t h of
             Some f \<Rightarrow> (Inl (Fault f), c, t @ [DisposeContext h])
           | None \<Rightarrow>
               (Inr (), c\<lparr>api_context := None\<rparr>,
                t @ [DisposeContext h, Log INFO ''API client disposed''])))"

definition setAuthToken :: "ApiClient \<Rightarrow> string \<Rightarrow> effect list \<Rightarrow> ApiClient \<times> effect list" where
  "setAuthToken c token t =
     (c\<lparr>defaultHeaders := (defaultHeaders c)(''Authorization'' \<mapsto> ''Bearer '' @ token)\<rparr>,
      t @ [Log INFO ''Authentication token set''])"

definition clearAuthToken :: "ApiClient \<Rightarrow> effect list \<Rightarrow> ApiClient \<times> effect list" where
  "clearAuthToken c t =
     (c\<lparr>defaultHeaders := (defaultHeaders c)(''Authorization'' := None)\<rparr>,
      t @ [Log INFO ''Authentication token cleared''])"

definition processResponse :: "APIResponse \<Rightarrow> effect list \<Rightarrow> ApiResponse \<times> effect list" where
  "processResponse response t =
     (let st = resp_status response;
          hs = resp_headers response;
          k = resp_ok response;
          contentType = (case hs ''content-type'' of None \<Rightarrow> [] | Some v \<Rightarrow> v);
          body = (if str_includes contentType ''application/json'' then resp_json response
                  else (case resp_text response of Inl f \<Rightarrow> Inl f | Inr s \<Rightarrow> Inr (JString s)));
          d = (case body of Inl f \<Rightarrow> JNull | Inr v \<Rightarrow> v);
          t1 = (case body of
                  Inl f \<Rightarrow> t @ [Log WARN ''Failed to parse response body'']
                | Inr v \<Rightarrow> t);
          t2 = t1 @ [Log INFO (''Response: '' @ show_int st @ '' ''
                                @ (if k then ''OK'' else ''ERROR''))];
          t3 = (if \<not> k then t2 @ [Log ERROR (''API request failed: '' @ show_int st)] else t2)
      in (\<lparr>status = st, headers = hs, data = d, ok = k\<rparr>, t3))"

definition verb_of :: "string \<Rightarrow> http_verb option" where
  "verb_of m =
     (if m = ''GET'' then Some GET
      else if m = ''POST'' then Some POST
      else if m = ''PUT'' then Some PUT
      else if m = ''PATCH'' then Some PATCH
      else if m = ''DELETE'' then Some DELETE
      else None)"

definition makeRequest ::
  "platform \<Rightarrow> ApiClient \<Rightarrow> string \<Rightarrow> string \<Rightarrow> RequestOptions \<Rightarrow> effect list
     \<Rightarrow> (error + ApiResponse) \<times> effect list" where
  "makeRequest P c method url options t =
     (case api_context c of
        None \<Rightarrow> (Inl NotInitialized, t)
      | Some h \<Rightarrow>
          (let hdrs = (case opt_headers options of None \<Rightarrow> Map.empty | Some x \<Rightarrow> x);
               mergedHeaders = defaultHeaders c ++ hdrs;
               t1 = t @ [Log INFO (''Making '' @ method @ '' request to '' @ url)];
               ro = \<lparr>ro_headers = Some mergedHeaders,
                     ro_timeout =
                       Some (case opt_timeout options of
                               None \<Rightarrow> 30000
                             | Some n \<Rightarrow> if n = 0 then 30000 else n),
                     ro_data =
                       (case opt_data options of
                          None \<Rightarrow> None
                        | Some d \<Rightarrow> if truthy d then Some d else None),
                     ro_multipart = None\<rparr>;
               url' = (case opt_params options of
                         None \<Rightarrow> url
                       | Some ps \<Rightarrow>
                           url @ (if CHR ''?'' \<in> set url then ''&'' else ''?'')
                               @ urlSearchParams P ps)
           in case verb_of (toUpperCase method) of
                None \<Rightarrow> (Inl (UnsupportedMethod method), t1)
              | Some v \<Rightarrow>
                  (case send P t1 h v url' ro of
                     Inl f \<Rightarrow> (Inl (Fault f), t1 @ [Request h v url' ro])
                   | Inr response \<Rightarrow>
                       (case processResponse response (t1 @ [Request h v url' ro]) of
                          (env, t2) \<Rightarrow> (Inr env, t2)))))"

definition get ::
  "platform \<Rightarrow> ApiClient \<Rightarrow> string \<Rightarrow> RequestOptions \<Rightarrow> effect list
     \<Rightarrow> (error + ApiResponse) \<times> effect list" where
  "get P c url options t = makeRequest P c ''GET'' url options t"

definition post ::
  "platform \<Rightarrow> ApiClient \<Rightarrow> string \<Rightarrow> json option \<Rightarrow> RequestOptions \<Rightarrow> effect list
     \<Rightarrow> (error + ApiResponse) \<times> effect list" where
  "post P c url d options t = makeRequest P c ''POST'' url (options\<lparr>opt_data := d\<rparr>) t"

definition put ::
  "platform \<Rightarrow> ApiClient \<Rightarrow> string \<Rightarrow> json option \<Rightarrow> RequestOptions \<Rightarrow> effect list
     \<Rightarrow> (error + ApiResponse) \<times> effect list" where
  "put P c url d options t = makeRequest P c ''PUT'' url (options\<lparr>opt_data := d\<rparr>) t"

definition patch ::
  "platform \<Rightarrow> ApiClient \<Rightarrow> string \<Rightarrow> json option \<Rightarrow> RequestOptions \<Rightarrow> effect list
     \<Rightarrow> (error + ApiResponse) \<times> effect list" where
  "patch P c url d options t = makeRequest P c ''PATCH'' url (options\<lparr>opt_data := d\<rparr>) t"

definition delete ::
  "platform \<Rightarrow> ApiClient \<Rightarrow> string \<Rightarrow> RequestOptions \<Rightarrow> effect list
     \<Rightarrow> (error + ApiResponse) \<times> effect list" where
  "delete P c url options t = makeRequest P c ''DELETE'' url options t"

definition uploadFile ::
  "platform \<Rightarrow> ApiClient \<Rightarrow> string \<Rightarrow> string \<Rightarrow> string \<Rightarrow> (string \<rightharpoonup> json) \<Rightarrow> effect list
     \<Rightarrow> (error + ApiResponse) \<times> effect list" where
  "uploadFile P c url filePath fieldName additionalData t =
     (case api_context c of
        None \<Rightarrow> (Inl NotInitialized, t)
      | Some h \<Rightarrow>
          (let formData = [fieldName \<mapsto> ReadStream filePath]
                            ++ (\<lambda>k. map_option FormValue (additionalData k));
               t1 = t @ [Log INFO (''Uploading file to '' @ url)];
               ro = \<lparr>ro_headers = None, ro_timeout = None, ro_data = None,
                     ro_multipart = Some formData\<rparr>
           in case send P t1 h POST url ro of
                Inl f \<Rightarrow> (Inl (Fault f), t1 @ [Request h POST url ro])
              | Inr response \<Rightarrow>
                  (case processResponse response (t1 @ [Request h POST url ro]) of
                     (env, t2) \<Rightarrow> (Inr env, t2))))"

definition healthCheck :: "platform \<Rightarrow> ApiClient \<Rightarrow> effect list \<Rightarrow> bool \<times> effect list" where
  "healthCheck P c t =
     (case get P c ''/health'' no_options t of
        (Inr response, t1) \<Rightarrow> (ok response, t1)
      | (Inl e, t1) \<Rightarrow> (False, t1 @ [Log ERROR ''Health check failed'']))"

text \<open>
  \<open>waitForApiReady\<close>: the \<open>for\<close> loop with its counter \<open>attempt\<close>, started at 1.
  The two template literals it logs are named, since the statements about the loop
  mention them.
\<close>

definition checking_message :: "int \<Rightarrow> int \<Rightarrow> string" where
  "checking_message attempt maxAttempts =
     ''Checking API readiness (attempt '' @ show_int attempt @ ''/'' @ show_int maxAttempts @ '')''"

definition waiting_message :: "int \<Rightarrow> string" where
  "waiting_message delay = ''API not ready, waiting '' @ show_int delay @ ''ms...''"

function waitLoop ::
  "platform \<Rightarrow> ApiClient \<Rightarrow> int \<Rightarrow> int \<Rightarrow> int \<Rightarrow> effect list \<Rightarrow> (error + unit) \<times> effect list" where
  "waitLoop P c maxAttempts delay attempt t =
     (if attempt \<le> maxAttempts then
        (let t1 = t @ [Log INFO (checking_message attempt maxAttempts)];
             hc = healthCheck P c t1
         in if fst hc then (Inr (), snd hc @ [Log INFO ''API is ready''])
            else waitLoop P c maxAttempts delay (attempt + 1)
                   (if attempt < maxAttempts
                    then snd hc @ [Log INFO (waiting_message delay), SetTimeout delay]
                    else snd hc))
      else (Inl NotReady, t))"
  by pat_completeness auto
termination
  by (relation "measure (\<lambda>(P, c, maxAttempts, delay, attempt, t). nat (maxAttempts + 1 - attempt))")
     auto

declare waitLoop.simps [simp del]

definition waitForApiReady ::
  "platform \<Rightarrow> ApiClient \<Rightarrow> int \<Rightarrow> int \<Rightarrow> effect list \<Rightarrow> (error + unit) \<times> effect list" where
  "waitForApiReady P c maxAttempts delay t = waitLoop P c maxAttempts delay 1 t"

section \<open>The runtime the data factory draws from\<close>

text \<open>
  \<open>test-data-factory.ts\<close> reads two sources outside the program: \<open>Math.random()\<close> and
  the clock (\<open>Date.now()\<close>, \<open>new Date()\<close>). A \<open>runtime\<close> holds what they will answer,
  call after call; a call takes the first answer and leaves the rest. A random number is
  a rational here, and \<open>Math.floor(Math.random() * n)\<close> is computed exactly; the clock
  counts milliseconds since the epoch.
\<close>

record runtime =
  randoms :: "nat \<Rightarrow> rat"
  clock :: "nat \<Rightarrow> int"

definition Math_random :: "runtime \<Rightarrow> rat \<times> runtime" where
  "Math_random s = (randoms s 0, s\<lparr>randoms := \<lambda>i. randoms s (Suc i)\<rparr>)"

definition Date_now :: "runtime \<Rightarrow> int \<times> runtime" where
  "Date_now s = (clock s 0, s\<lparr>clock := \<lambda>i. clock s (Suc i)\<rparr>)"

text \<open>The contract of \<open>Math.random()\<close>: every result lies in the interval from 0 to 1, 1 excluded.\<close>

definition random_ok :: "runtime \<Rightarrow> bool" where
  "random_ok s = (\<forall>i. 0 \<le> randoms s i \<and> randoms s i < 1)"

definition skip_randoms :: "nat \<Rightarrow> runtime \<Rightarrow> runtime" where
  "skip_randoms k s = s\<lparr>randoms := \<lambda>i. randoms s (i + k)\<rparr>"

text \<open>
  \<open>[...xs].sort(() => 0.5 - Math.random())\<close> is run by the JavaScript engine: which
  comparisons it makes, and so which order comes out, is the engine's choice. The engine's
  sort is therefore a parameter of the factory. \<open>sort_contract\<close> is what the factory relies
  on: the result is a rearrangement of the input, and the comparator was called some
  number of times, each call drawing one random number.
\<close>

type_synonym array_sort = "string list \<Rightarrow> runtime \<Rightarrow> string list \<times> runtime"

definition sort_contract :: "array_sort \<Rightarrow> bool" where
  "sort_contract srt =
     (\<forall>xs s. mset (fst (srt xs s)) = mset xs \<and> (\<exists>k. snd (srt xs s) = skip_randoms k s))"

text \<open>An array read \<open>xs[i]\<close>: \<open>undefined\<close>, here \<open>None\<close>, beyond the end.\<close>

definition js_index :: "'a list \<Rightarrow> nat \<Rightarrow> 'a option" where
  "js_index xs i = (if i < length xs then Some (xs ! i) else None)"

text \<open>\<open>xs.slice(0, count)\<close>; a negative count is taken from the end.\<close>

definition slice0 :: "'a list \<Rightarrow> int \<Rightarrow> 'a list" where
  "slice0 xs cnt =
     (if cnt < 0 then take (length xs - nat (- cnt)) xs else take (nat cnt) xs)"

text \<open>
  \<open>xs[Math.floor(r * xs.length)]\<close> for a random number \<open>r\<close>; under the contract of
  \<open>Math.random()\<close> the index is within the array.
\<close>

definition pick :: "string list \<Rightarrow> rat \<Rightarrow> string" where
  "pick xs r = xs ! nat \<lfloor>r * of_nat (length xs)\<rfloor>"

text \<open>
  \<open>date.toISOString().split('T')[0]\<close>: the UTC calendar date \<open>YYYY-MM-DD\<close> of an
  instant given in milliseconds since the epoch (years 0 to 9999).
\<close>

definition ms_per_day :: int where
  "ms_per_day = 86400000"

definition pad :: "nat \<Rightarrow> int \<Rightarrow> string" where
  "pad w n = replicate (w - length (show_int n)) CHR ''0'' @ show_int n"

definition iso_date_of_day :: "int \<Rightarrow> string" where
  "iso_date_of_day days =
     (let z = days + 719468;
          era = z div 146097;
          doe = z - era * 146097;
          yoe = (doe - doe div 1460 + doe div 36524 - doe div 146096) div 365;
          doy = doe - (365 * yoe + yoe div 4 - yoe div 100);
          mp = (5 * doy + 2) div 153;
          d = doy - (153 * mp + 2) div 5 + 1;
          m = (if mp < 10 then mp + 3 else mp - 9);
          y = yoe + era * 400 + (if m \<le> 2 then 1 else 0)
      in pad 4 y @ ''-'' @ pad 2 m @ ''-'' @ pad 2 d)"

definition toISODate :: "int \<Rightarrow> string" where
  "toISODate t = iso_date_of_day (t div ms_per_day)"

text \<open>
  The time zone of the process, as ECMAScript's \<open>LocalTZA\<close> sees it: \<open>offset_at_utc t\<close> is
  the offset of local time from UTC, in milliseconds, at the instant \<open>t\<close>, and
  \<open>offset_at_local lt\<close> is the offset in force at the local time value \<open>lt\<close>. They
  belong to the engine and the host, not to the repository, so a zone is a parameter.
  \<open>LocalTime\<close> and \<open>UTC\<close> are the two conversions of the language specification.
\<close>

record time_zone =
  offset_at_utc :: "int \<Rightarrow> int"
  offset_at_local :: "int \<Rightarrow> int"

definition LocalTime :: "time_zone \<Rightarrow> int \<Rightarrow> int" where
  "LocalTime tz t = t + offset_at_utc tz t"

definition UTC :: "time_zone \<Rightarrow> int \<Rightarrow> int" where
  "UTC tz lt = lt - offset_at_local tz lt"

text \<open>
  \<open>date.setDate(date.getDate() + k)\<close> on a date holding the instant \<open>t\<close>: the local
  date moves \<open>k\<close> calendar days ahead at the same local time of day, and the result is
  converted back to an instant.
\<close>

definition setDate_plus :: "time_zone \<Rightarrow> int \<Rightarrow> int \<Rightarrow> int" where
  "setDate_plus tz t k = UTC tz (LocalTime tz t + k * ms_per_day)"

section \<open>The test data factory (\<open>fixtures/test-data-factory.ts\<close>)\<close>

text \<open>
  The interfaces. An optional field (\<open>genre?\<close>, \<open>instruments?\<close>, \<open>bandMembers?\<close>) that
  is absent from the object is \<open>None\<close>. \<open>instrument\<close> of a band member is read from an
  array by index, so it is an option as well.
\<close>

record BandMember =
  name :: string
  instrument :: "string option"
  role :: string

datatype user_type = fan | band | solo_artist

record UserData =
  firstName :: string
  lastName :: string
  email :: string
  phone :: string
  password :: string
  userType :: user_type
  genre :: "string list option"
  instruments :: "string list option"
  bandMembers :: "BandMember list option"

record EventData =
  title :: string
  description :: string
  date :: string
  time :: string
  venue :: string
  address :: string
  city :: string
  state :: string
  zipCode :: string
  ticketPrice :: int
  capacity :: int
  genre :: "string list"

definition firstNames :: "string list" where
  "firstNames =
     [''Alex'', ''Jamie'', ''Taylor'', ''Jordan'', ''Casey'', ''Riley'', ''Morgan'', ''Drew'',
      ''Sam'', ''Avery'', ''Quinn'', ''Blake'', ''Sage'', ''River'', ''Rowan'', ''Skylar'']"

definition lastNames :: "string list" where
  "lastNames =
     [''Smith'', ''Johnson'', ''Williams'', ''Brown'', ''Jones'', ''Garcia'', ''Miller'',
      ''Davis'', ''Rodriguez'', ''Martinez'', ''Hernandez'', ''Lopez'', ''Gonzalez'',
      ''Wilson'', ''Anderson'', ''Thomas'', ''Taylor'', ''Moore'', ''Jackson'', ''Martin'']"

definition genres :: "string list" where
  "genres =
     [''Rock'', ''Pop'', ''Jazz'', ''Blues'', ''Country'', ''Electronic'', ''Hip Hop'',
      ''Classical'', ''Folk'', ''Reggae'', ''R&B'', ''Indie'', ''Alternative'', ''Metal'']"

definition instrument_names :: "string list" where
  "instrument_names =
     [''Guitar'', ''Bass'', ''Drums'', ''Piano'', ''Keyboard'', ''Violin'', ''Saxophone'',
      ''Trumpet'', ''Flute'', ''Clarinet'', ''Vocals'', ''Cello'', ''Harmonica'', ''Ukulele'']"

definition roles :: "string list" where
  "roles = [''Lead Vocalist'', ''Guitarist'', ''Bassist'', ''Drummer'', ''Keyboardist'']"

definition titles :: "string list" where
  "titles =
     [''Summer Music Festival'', ''Rock Night'', ''Jazz Evening'', ''Acoustic Session'',
      ''Electronic Beats'', ''Country Roads'', ''Indie Showcase'', ''Metal Mayhem'',
      ''Blues Brothers'', ''Pop Paradise'', ''Folk Tales'', ''Classical Concert'']"

definition descriptions :: "string list" where
  "descriptions =
     [''Join us for an unforgettable night of live music and entertainment.'',
      ''Experience the best local talent in an intimate venue setting.'',
      ''A celebration of music that will leave you wanting more.'',
      ''Don't miss this incredible showcase of musical artistry.'',
      ''An evening filled with amazing performances and great vibes.'']"

definition venues :: "string list" where
  "venues =
     [''The Music Hall'', ''Downtown Theater'', ''Rock Palace'', ''Jazz Lounge'',
      ''Concert Arena'', ''The Stage'', ''Music Box'', ''Harmony Hall'',
      ''Sound Stage'', ''The Venue'', ''Live House'', ''Performance Center'']"

definition streetNames :: "string list" where
  "streetNames =
     [''Main St'', ''Oak Ave'', ''Park Blvd'', ''First St'', ''Broadway'',
      ''Center St'', ''Church St'', ''Music Ave'', ''Concert Dr'', ''Harmony Ln'']"

definition cities :: "string list" where
  "cities =
     [''Austin'', ''Nashville'', ''Los Angeles'', ''New York'', ''Chicago'',
      ''Seattle'', ''Portland'', ''Denver'', ''Atlanta'', ''Miami'']"

definition states :: "string list" where
  "states = [''TX'', ''TN'', ''CA'', ''NY'', ''IL'', ''WA'', ''OR'', ''CO'', ''GA'', ''FL'']"

definition getRandomFirstName :: "runtime \<Rightarrow> string \<times> runtime" where
  "getRandomFirstName s = (case Math_random s of (r, s1) \<Rightarrow> (pick firstNames r, s1))"

definition getRandomLastName :: "runtime \<Rightarrow> string \<times> runtime" where
  "getRandomLastName s = (case Math_random s of (r, s1) \<Rightarrow> (pick lastNames r, s1))"

definition generatePhoneNumber :: "runtime \<Rightarrow> string \<times> runtime" where
  "generatePhoneNumber s =
     (case Math_random s of (r1, s1) \<Rightarrow>
      case Math_random s1 of (r2, s2) \<Rightarrow>
      case Math_random s2 of (r3, s3) \<Rightarrow>
        (let areaCode = \<lfloor>r1 * 900\<rfloor> + 100;
             exchange = \<lfloor>r2 * 900\<rfloor> + 100;
             number = \<lfloor>r3 * 9000\<rfloor> + 1000
         in (show_int areaCode @ ''-'' @ show_int exchange @ ''-'' @ show_int number, s3)))"

definition getRandomGenres :: "array_sort \<Rightarrow> int \<Rightarrow> runtime \<Rightarrow> string list \<times> runtime" where
  "getRandomGenres srt cnt s =
     (case srt genres s of (shuffled, s1) \<Rightarrow> (slice0 shuffled cnt, s1))"

definition getRandomInstruments :: "array_sort \<Rightarrow> int \<Rightarrow> runtime \<Rightarrow> string list \<times> runtime" where
  "getRandomInstruments srt cnt s =
     (case srt instrument_names s of (shuffled, s1) \<Rightarrow> (slice0 shuffled cnt, s1))"

text \<open>The \<open>for\<close> loop of \<open>generateBandMembers\<close>, with its counter \<open>i\<close>.\<close>

function members_loop ::
  "string list \<Rightarrow> int \<Rightarrow> nat \<Rightarrow> BandMember list \<Rightarrow> runtime \<Rightarrow> BandMember list \<times> runtime" where
  "members_loop instrs memberCount i members s =
     (if int i < memberCount then
        (case getRandomFirstName s of (fname, s1) \<Rightarrow>
         case getRandomLastName s1 of (lname, s2) \<Rightarrow>
           members_loop instrs memberCount (i + 1)
             (members @
              [\<lparr>name = fname @ '' '' @ lname,
                instrument = js_index instrs i,
                role = (case js_index roles i of
                          None \<Rightarrow> ''Musician''
                        | Some r \<Rightarrow> if r = [] then ''Musician'' else r)\<rparr>])
             s2)
      else (members, s))"
  by pat_completeness auto
termination
  by (relation "measure (\<lambda>(instrs, memberCount, i, members, s). nat (memberCount - int i))") auto

declare members_loop.simps [simp del]

definition generateBandMembers :: "array_sort \<Rightarrow> runtime \<Rightarrow> BandMember list \<times> runtime" where
  "generateBandMembers srt s =
     (case Math_random s of (r, s1) \<Rightarrow>
        (let memberCount = \<lfloor>r * 4\<rfloor> + 2 in
         case getRandomInstruments srt memberCount s1 of (instrs, s2) \<Rightarrow>
           members_loop instrs memberCount 0 [] s2))"

definition generateUser :: "array_sort \<Rightarrow> user_type \<Rightarrow> runtime \<Rightarrow> UserData \<times> runtime" where
  "generateUser srt ut s =
     (case getRandomFirstName s of (fname, s1) \<Rightarrow>
      case getRandomLastName s1 of (lname, s2) \<Rightarrow>
      case Date_now s2 of (now, s3) \<Rightarrow>
      case generatePhoneNumber s3 of (ph, s4) \<Rightarrow>
        (let userData =
               \<lparr>firstName = fname,
                lastName = lname,
                email = ''test-'' @ toLowerCase fname @ ''-'' @ show_int now
                          @ ''@example.amazonses.com'',
                phone = ph,
                password = ''TestPassword123!'',
                userType = ut,
                UserData.genre = None,
                instruments = None,
                bandMembers = None\<rparr>
         in if ut = band then
              (case getRandomGenres srt 2 s4 of (g, s5) \<Rightarrow>
               case generateBandMembers srt s5 of (ms, s6) \<Rightarrow>
                 (userData\<lparr>UserData.genre := Some g, bandMembers := Some ms\<rparr>, s6))
            else if ut = solo_artist then
              (case getRandomGenres srt 1 s4 of (g, s5) \<Rightarrow>
               case getRandomInstruments srt 2 s5 of (ins, s6) \<Rightarrow>
                 (userData\<lparr>UserData.genre := Some g, instruments := Some ins\<rparr>, s6))
            else (userData, s4)))"

definition userTypes :: "user_type list" where
  "userTypes = [fan, band, solo_artist]"

text \<open>The \<open>for\<close> loop of \<open>generateUsers\<close>, with its counter \<open>i\<close>.\<close>

function users_loop ::
  "array_sort \<Rightarrow> int \<Rightarrow> nat \<Rightarrow> UserData list \<Rightarrow> runtime \<Rightarrow> UserData list \<times> runtime" where
  "users_loop srt cnt i users s =
     (if int i < cnt then
        (case generateUser srt (userTypes ! (i mod length userTypes)) s of
           (u, s1) \<Rightarrow> users_loop srt cnt (i + 1) (users @ [u]) s1)
      else (users, s))"
  by pat_completeness auto
termination
  by (relation "measure (\<lambda>(srt, cnt, i, users, s). nat (cnt - int i))") auto

declare users_loop.simps [simp del]

definition generateUsers :: "array_sort \<Rightarrow> int \<Rightarrow> runtime \<Rightarrow> UserData list \<times> runtime" where
  "generateUsers srt cnt s = users_loop srt cnt 0 [] s"

definition getRandomEventTitle :: "runtime \<Rightarrow> string \<times> runtime" where
  "getRandomEventTitle s = (case Math_random s of (r, s1) \<Rightarrow> (pick titles r, s1))"

definition getRandomEventDescription :: "runtime \<Rightarrow> string \<times> runtime" where
  "getRandomEventDescription s = (case Math_random s of (r, s1) \<Rightarrow> (pick descriptions r, s1))"

definition getRandomTime :: "runtime \<Rightarrow> string \<times> runtime" where
  "getRandomTime s =
     (case Math_random s of (r1, s1) \<Rightarrow>
      case Math_random s1 of (r2, s2) \<Rightarrow>
        (let hours = \<lfloor>r1 * 12\<rfloor> + 7;
             minutes = (if r2 > 1 / 2 then ''00'' else ''30'');
             period = (if hours \<le> 11 then ''PM'' else ''AM'');
             displayHour = (if hours > 12 then hours - 12 else hours)
         in (show_int displayHour @ '':'' @ minutes @ '' '' @ period, s2)))"

definition getRandomVenue :: "runtime \<Rightarrow> string \<times> runtime" where
  "getRandomVenue s = (case Math_random s of (r, s1) \<Rightarrow> (pick venues r, s1))"

definition getRandomAddress :: "runtime \<Rightarrow> string \<times> runtime" where
  "getRandomAddress s =
     (case Math_random s of (r1, s1) \<Rightarrow>
      case Math_random s1 of (r2, s2) \<Rightarrow>
        (let streetNumber = \<lfloor>r1 * 9999\<rfloor> + 1;
             streetName = pick streetNames r2
         in (show_int streetNumber @ '' '' @ streetName, s2)))"

definition getRandomCity :: "runtime \<Rightarrow> string \<times> runtime" where
  "getRandomCity s = (case Math_random s of (r, s1) \<Rightarrow> (pick cities r, s1))"

definition getRandomState :: "runtime \<Rightarrow> string \<times> runtime" where
  "getRandomState s = (case Math_random s of (r, s1) \<Rightarrow> (pick states r, s1))"

definition generateZipCode :: "runtime \<Rightarrow> string \<times> runtime" where
  "generateZipCode s = (case Math_random s of (r, s1) \<Rightarrow> (show_int \<lfloor>r * 90000 + 10000\<rfloor>, s1))"

text \<open>
  \<open>generateEvent\<close>. The date is moved ahead in local time by \<open>setDate\<close> and printed in
  UTC by \<open>toISOString\<close>, so the time zone of the process is a parameter.
\<close>

definition generateEvent :: "array_sort \<Rightarrow> time_zone \<Rightarrow> runtime \<Rightarrow> EventData \<times> runtime" where
  "generateEvent srt tz s =
     (case getRandomGenres srt 1 s of (gs, s1) \<Rightarrow>
      case Date_now s1 of (now, s2) \<Rightarrow>
      case Math_random s2 of (r, s3) \<Rightarrow>
        (let eventDate = setDate_plus tz now (\<lfloor>r * 30\<rfloor> + 1) in
         case getRandomEventTitle s3 of (ttl, s4) \<Rightarrow>
         case getRandomEventDescription s4 of (dsc, s5) \<Rightarrow>
         case getRandomTime s5 of (tm, s6) \<Rightarrow>
         case getRandomVenue s6 of (vn, s7) \<Rightarrow>
         case getRandomAddress s7 of (addr, s8) \<Rightarrow>
         case getRandomCity s8 of (cty, s9) \<Rightarrow>
         case getRandomState s9 of (stt, s10) \<Rightarrow>
         case generateZipCode s10 of (zc, s11) \<Rightarrow>
         case Math_random s11 of (rp, s12) \<Rightarrow>
         case Math_random s12 of (rc, s13) \<Rightarrow>
           (\<lparr>title = ttl @ '' Concert'',
             description = dsc,
             date = toISODate eventDate,
             time = tm,
             venue = vn,
             address = addr,
             city = cty,
             state = stt,
             zipCode = zc,
             ticketPrice = \<lfloor>rp * 100\<rfloor> + 20,
             capacity = \<lfloor>rc * 500\<rfloor> + 50,
             genre = gs\<rparr>, s13)))"

text \<open>
  One engine's sort, for examples: insertion sort, asking the comparator
  \<open>0.5 - Math.random()\<close> at each step whether to move on.
\<close>

fun insert_random :: "string \<Rightarrow> string list \<Rightarrow> runtime \<Rightarrow> string list \<times> runtime" where
  "insert_random x [] s = ([x], s)"
| "insert_random x (y # ys) s =
     (case Math_random s of (r, s1) \<Rightarrow>
        if 1 / 2 - r \<le> 0 then (x # y # ys, s1)
        else (case insert_random x ys s1 of (zs, s2) \<Rightarrow> (y # zs, s2)))"

fun insertion_sort :: array_sort where
  "insertion_sort [] s = ([], s)"
| "insertion_sort (x # xs) s =
     (case insertion_sort xs s of (ys, s1) \<Rightarrow> insert_random x ys s1)"

definition example_runtime :: runtime where
  "example_runtime =
     \<lparr>randoms = (\<lambda>i. if even i then 1 / 4 else 7 / 8),
      clock = (\<lambda>i. 1793700000000 + int i)\<rparr>"

text \<open>
  Time zones for examples. In 2026 London is one hour ahead of UTC from 29 March 01:00
  UTC to 25 October 01:00 UTC; New York is four hours behind UTC from 8 March 07:00 UTC
  to 1 November 06:00 UTC and five hours behind otherwise. A local time that a change of
  offset skips or repeats gets the offset in force before the change.
\<close>

definition utc_zone :: time_zone where
  "utc_zone = \<lparr>offset_at_utc = (\<lambda>t. 0), offset_at_local = (\<lambda>lt. 0)\<rparr>"

definition london_2026 :: time_zone where
  "london_2026 =
     \<lparr>offset_at_utc =
        (\<lambda>t. if 1774746000000 \<le> t \<and> t < 1792890000000 then 3600000 else 0),
      offset_at_local =
        (\<lambda>lt. if 1774746000000 + 3600000 \<le> lt \<and> lt < 1792890000000 + 3600000
              then 3600000 else 0)\<rparr>"

definition new_york_2026 :: time_zone where
  "new_york_2026 =
     \<lparr>offset_at_utc =
        (\<lambda>t. if 1772953200000 \<le> t \<and> t < 1793512800000 then - 14400000 else - 18000000),
      offset_at_local =
        (\<lambda>lt. if 1772953200000 - 14400000 \<le> lt \<and> lt < 1793512800000 - 14400000
              then - 14400000 else - 18000000)\<rparr>"

text \<open>
  Two calls: one at 2026-09-26T23:30Z where every random draw is 0.99, and one at
  2026-03-08T00:30Z where every random draw is 0.
\<close>

definition late_september :: runtime where
  "late_september = \<lparr>randoms = (\<lambda>i. 99 / 100), clock = (\<lambda>i. 1790465400000)\<rparr>"

definition early_march :: runtime where
  "early_march = \<lparr>randoms = (\<lambda>i. 0), clock = (\<lambda>i. 1772929800000)\<rparr>"

section \<open>Observing a trace of effects\<close>

text \<open>
  The request a call of \<open>makeRequest\<close> sends, piece by piece as \<open>makeRequest\<close> builds it:
  the method name of a verb, the URL with the query string appended, the options object,
  and the transport's answer to exactly that request at the moment it is sent.
\<close>

definition verb_name :: "http_verb \<Rightarrow> string" where
  "verb_name v =
     (case v of GET \<Rightarrow> ''GET'' | POST \<Rightarrow> ''POST'' | PUT \<Rightarrow> ''PUT'' | PATCH \<Rightarrow> ''PATCH''
      | DELETE \<Rightarrow> ''DELETE'')"

definition request_url :: "platform \<Rightarrow> string \<Rightarrow> RequestOptions \<Rightarrow> string" where
  "request_url P url options =
     (case opt_params options of
        None \<Rightarrow> url
      | Some ps \<Rightarrow> url @ (if CHR ''?'' \<in> set url then ''&'' else ''?'') @ urlSearchParams P ps)"

definition request_options :: "ApiClient \<Rightarrow> RequestOptions \<Rightarrow> requestOptions" where
  "request_options c options =
     \<lparr>ro_headers =
        Some (defaultHeaders c
                ++ (case opt_headers options of None \<Rightarrow> Map.empty | Some x \<Rightarrow> x)),
      ro_timeout =
        Some (case opt_timeout options of None \<Rightarrow> 30000 | Some n \<Rightarrow> if n = 0 then 30000 else n),
      ro_data =
        (case opt_data options of None \<Rightarrow> None | Some d \<Rightarrow> if truthy d then Some d else None),
      ro_multipart = None\<rparr>"

definition transport_answer ::
  "platform \<Rightarrow> nat \<Rightarrow> ApiClient \<Rightarrow> http_verb \<Rightarrow> string \<Rightarrow> RequestOptions \<Rightarrow> effect list
     \<Rightarrow> string + APIResponse" where
  "transport_answer P h c v url options t =
     send P (t @ [Log INFO (''Making '' @ verb_name v @ '' request to '' @ url)]) h v
       (request_url P url options) (request_options c options)"

text \<open>The header mappings of the requests sent, in order.\<close>

fun sent_headers :: "effect list \<Rightarrow> (string \<rightharpoonup> string) option list" where
  "sent_headers [] = []"
| "sent_headers (Request h v u ro # es) = ro_headers ro # sent_headers es"
| "sent_headers (e # es) = sent_headers es"

text \<open>The requests sent, in order: context handle, verb and URL.\<close>

fun requests :: "effect list \<Rightarrow> (nat \<times> http_verb \<times> string) list" where
  "requests [] = []"
| "requests (Request h v u ro # es) = (h, v, u) # requests es"
| "requests (e # es) = requests es"

fun starts_with :: "string \<Rightarrow> string \<Rightarrow> bool" where
  "starts_with s [] = True"
| "starts_with [] (p # ps) = False"
| "starts_with (c # cs) (p # ps) = (c = p \<and> starts_with cs ps)"

text \<open>
  What a readiness poll leaves in the trace: the announcement of an attempt (logged right
  before each call of \<open>healthCheck\<close>) and the pauses.
\<close>

datatype poll_event = Checked | Waited int

fun poll_events :: "effect list \<Rightarrow> poll_event list" where
  "poll_events [] = []"
| "poll_events (Log l m # es) =
     (if l = INFO \<and> starts_with m ''Checking API readiness'' then Checked # poll_events es
      else poll_events es)"
| "poll_events (SetTimeout d # es) = Waited d # poll_events es"
| "poll_events (e # es) = poll_events es"

text \<open>
  The course of \<open>waitForApiReady P c n d\<close> started on trace \<open>t\<close>, as long as every health
  check so far has answered false: \<open>loop_head k\<close> is the trace when the loop body is
  entered with \<open>attempt = k + 1\<close>, and \<open>health_check_no k\<close> is the call of \<open>healthCheck\<close>
  made in that iteration (its answer and the trace after it).
\<close>

fun loop_head :: "platform \<Rightarrow> ApiClient \<Rightarrow> int \<Rightarrow> int \<Rightarrow> effect list \<Rightarrow> nat \<Rightarrow> effect list" where
  "loop_head P c n d t 0 = t"
| "loop_head P c n d t (Suc k) =
     (let hc = healthCheck P c (loop_head P c n d t k @ [Log INFO (checking_message (int k + 1) n)])
      in if int k + 1 < n then snd hc @ [Log INFO (waiting_message d), SetTimeout d]
         else snd hc)"

definition health_check_no ::
  "platform \<Rightarrow> ApiClient \<Rightarrow> int \<Rightarrow> int \<Rightarrow> effect list \<Rightarrow> nat \<Rightarrow> bool \<times> effect list" where
  "health_check_no P c n d t k =
     healthCheck P c (loop_head P c n d t k @ [Log INFO (checking_message (int k + 1) n)])"

section \<open>Example platforms\<close>

text \<open>
  A transport for examples: the first context gets handle 0, disposing succeeds, query
  parameters are joined without escaping, and every request gets the same answer.
\<close>

fun join_params :: "(string \<times> string) list \<Rightarrow> string" where
  "join_params [] = []"
| "join_params [(k, v)] = k @ ''='' @ v"
| "join_params ((k, v) # kvs) = k @ ''='' @ v @ ''&'' @ join_params kvs"

definition fixed_platform :: "(string + APIResponse) \<Rightarrow> platform" where
  "fixed_platform answer =
     \<lparr>newContext = (\<lambda>t url hs. Inr 0),
      disposeContext = (\<lambda>t h. None),
      send = (\<lambda>t h v url ro. answer),
      urlSearchParams = join_params\<rparr>"

definition not_found :: APIResponse where
  "not_found =
     \<lparr>resp_status = 404,
      resp_headers = [''content-type'' \<mapsto> ''text/plain''],
      resp_ok = False,
      resp_json = Inl ''Unexpected token N in JSON'',
      resp_text = Inr ''Not Found''\<rparr>"

definition example_client :: ApiClient where
  "example_client = new_ApiClient ''http://localhost:3000'' Map.empty"

definition open_client :: ApiClient where
  "open_client = example_client\<lparr>api_context := Some 0\<rparr>"

definition healthy :: APIResponse where
  "healthy =
     \<lparr>resp_status = 200,
      resp_headers = [''content-type'' \<mapsto> ''application/json''],
      resp_ok = True,
      resp_json = Inr (JObject [(''status'', JString ''up'')]),
      resp_text = Inr ''up''\<rparr>"

text \<open>A service with routes: \<open>/health\<close> answers 200, every other path 404.\<close>

definition routed :: platform where
  "routed =
     \<lparr>newContext = (\<lambda>t url hs. Inr 0),
      disposeContext = (\<lambda>t h. None),
      send = (\<lambda>t h v url ro. if url = ''/health'' then Inr healthy else Inr not_found),
      urlSearchParams = join_params\<rparr>"

text \<open>A service that refuses connections until two pauses have gone by.\<close>

definition warming_up :: platform where
  "warming_up =
     \<lparr>newContext = (\<lambda>t url hs. Inr 0),
      disposeContext = (\<lambda>t h. None),
      send = (\<lambda>t h v url ro.
                if 2 \<le> length (filter (\<lambda>e. e = Waited 10) (poll_events t))
                then Inr healthy else Inl ''connect ECONNREFUSED''),
      urlSearchParams = join_params\<rparr>"

definition garbled :: APIResponse where
  "garbled =
     \<lparr>resp_status = 200,
      resp_headers = [''content-type'' \<mapsto> ''application/json; charset=utf-8''],
      resp_ok = True,
      resp_json = Inl ''Unexpected token < in JSON at position 0'',
      resp_text = Inr ''<html>''\<rparr>"

section \<open>Use before \<open>init\<close> and after \<open>dispose\<close>\<close>

text \<open>
  C1. When the client has no open context, each of \<open>get\<close>, \<open>post\<close>, \<open>put\<close>, \<open>patch\<close>,
  \<open>delete\<close> and \<open>uploadFile\<close> fails with the "not initialized" error and leaves the
  trace of effects as it was, so no request is sent. A freshly constructed client has no
  open context, and neither has a client on which \<open>dispose\<close> has completed.
\<close>

theorem no_context_not_initialized:
  "(api_context c = None \<longrightarrow>
      get P c url options t = (Inl NotInitialized, t) \<and>
      post P c url d options t = (Inl NotInitialized, t) \<and>
      put P c url d options t = (Inl NotInitialized, t) \<and>
      patch P c url d options t = (Inl NotInitialized, t) \<and>
      delete P c url options t = (Inl NotInitialized, t) \<and>
      uploadFile P c url filePath fieldName additionalData t = (Inl NotInitialized, t)) \<and>
   error_message NotInitialized = ''API client not initialized'' \<and>
   api_context (new_ApiClient b hs) = None \<and>
   (dispose P c0 t0 = (Inr (), c1, t1) \<longrightarrow> api_context c1 = None)"
proof -
  have verbs: "makeRequest P c m url os t = (Inl NotInitialized, t)"
    if "api_context c = None" for m os
    using that by (simp add: makeRequest_def)
  have upload: "uploadFile P c url filePath fieldName additionalData t = (Inl NotInitialized, t)"
    if "api_context c = None"
    using that by (simp add: uploadFile_def)
  have fresh: "api_context (new_ApiClient b hs) = None"
    by (simp add: new_ApiClient_def)
  have disposed: "api_context c1 = None" if "dispose P c0 t0 = (Inr (), c1, t1)"
    using that by (auto simp: dispose_def split: option.splits)
  show ?thesis
    using verbs upload fresh disposed
    by (simp add: get_def post_def put_def patch_def delete_def error_message_def)
qed

theorem no_context_not_initialized_witness:
  "api_context example_client = None \<and>
   get (fixed_platform (Inr not_found)) example_client ''/users'' no_options []
     = (Inl NotInitialized, []) \<and>
   uploadFile (fixed_platform (Inr not_found)) example_client ''/files'' ''a.png'' ''file''
       Map.empty []
     = (Inl NotInitialized, []) \<and>
   dispose (fixed_platform (Inr not_found)) (example_client\<lparr>api_context := Some 0\<rparr>) []
     = (Inr (), example_client, [DisposeContext 0, Log INFO ''API client disposed'']) \<and>
   delete (fixed_platform (Inr not_found)) example_client ''/users/1'' no_options
       [DisposeContext 0, Log INFO ''API client disposed'']
     = (Inl NotInitialized, [DisposeContext 0, Log INFO ''API client disposed''])"
proof -
  have none: "api_context example_client = None"
    by (simp add: example_client_def new_ApiClient_def)
  have disp: "dispose (fixed_platform (Inr not_found)) (example_client\<lparr>api_context := Some 0\<rparr>) []
     = (Inr (), example_client, [DisposeContext 0, Log INFO ''API client disposed''])"
    by (simp add: dispose_def fixed_platform_def example_client_def new_ApiClient_def)
  show ?thesis
    using none disp
      no_context_not_initialized [of example_client "fixed_platform (Inr not_found)"
        "''/users''" no_options "[]" None "''a.png''" "''file''" Map.empty
        "''http://localhost:3000''" Map.empty
        "example_client\<lparr>api_context := Some 0\<rparr>" "[]" example_client
        "[DisposeContext 0, Log INFO ''API client disposed'']"]
      no_context_not_initialized [of example_client "fixed_platform (Inr not_found)"
        "''/files''" no_options "[]" None "''a.png''" "''file''" Map.empty
        "''http://localhost:3000''" Map.empty
        "example_client\<lparr>api_context := Some 0\<rparr>" "[]" example_client
        "[DisposeContext 0, Log INFO ''API client disposed'']"]
      no_context_not_initialized [of example_client "fixed_platform (Inr not_found)"
        "''/users/1''" no_options "[DisposeContext 0, Log INFO ''API client disposed'']"
        None "''a.png''" "''file''" Map.empty
        "''http://localhost:3000''" Map.empty
        "example_client\<lparr>api_context := Some 0\<rparr>" "[]" example_client
        "[DisposeContext 0, Log INFO ''API client disposed'']"]
    by simp
qed

section \<open>Responses become envelopes\<close>

lemma processResponse_envelope:
  "fst (processResponse r t) =
     \<lparr>status = resp_status r,
      headers = resp_headers r,
      data =
        (case (if str_includes (case resp_headers r ''content-type'' of None \<Rightarrow> [] | Some v \<Rightarrow> v)
                    ''application/json''
               then resp_json r
               else (case resp_text r of Inl f \<Rightarrow> Inl f | Inr s \<Rightarrow> Inr (JString s))) of
           Inl f \<Rightarrow> JNull
         | Inr v \<Rightarrow> v),
      ok = resp_ok r\<rparr>"
  by (simp add: processResponse_def Let_def)

lemma verb_of_literals:
  "verb_of (toUpperCase ''GET'') = Some GET"
  "verb_of (toUpperCase ''POST'') = Some POST"
  "verb_of (toUpperCase ''PUT'') = Some PUT"
  "verb_of (toUpperCase ''PATCH'') = Some PATCH"
  "verb_of (toUpperCase ''DELETE'') = Some DELETE"
  by (simp_all add: verb_of_def toUpperCase_def lower_letters_def upper_letters_def)

lemma makeRequest_answered:
  assumes "api_context c = Some h" and "verb_of (toUpperCase m) = Some v"
    and "\<forall>hist u ro. send P hist h v u ro = Inr r"
  shows "fst (makeRequest P c m url os t) = Inr (fst (processResponse r []))"
  using assms by (simp add: makeRequest_def Let_def split_beta processResponse_envelope)

lemma sent_headers_append: "sent_headers (t @ es) = sent_headers t @ sent_headers es"
  by (induction t rule: sent_headers.induct) simp_all

lemma poll_events_append: "poll_events (t @ es) = poll_events t @ poll_events es"
  by (induction t rule: poll_events.induct) simp_all

lemma requests_append: "requests (t @ es) = requests t @ requests es"
  by (induction t rule: requests.induct) simp_all

lemma processResponse_sent_headers: "sent_headers (snd (processResponse r t)) = sent_headers t"
  by (simp add: processResponse_def Let_def sent_headers_append split: sum.splits)

lemma processResponse_poll_events: "poll_events (snd (processResponse r t)) = poll_events t"
  by (simp add: processResponse_def Let_def poll_events_append split: sum.splits)

lemma makeRequest_sent_headers:
  assumes "api_context c = Some h" and "verb_of (toUpperCase m) = Some v"
  shows "sent_headers (snd (makeRequest P c m url os t)) =
           sent_headers t @
           [Some (defaultHeaders c ++ (case opt_headers os of None \<Rightarrow> Map.empty | Some x \<Rightarrow> x))]"
  using assms
  by (simp add: makeRequest_def Let_def split_beta sent_headers_append processResponse_sent_headers
      split: sum.splits)

lemma verb_of_verb_name: "verb_of (toUpperCase (verb_name v)) = Some v"
  using verb_of_literals by (cases v) (simp_all add: verb_name_def)

lemma makeRequest_sends:
  assumes "api_context c = Some h"
  shows "makeRequest P c (verb_name v) url os t =
     (case transport_answer P h c v url os t of
        Inl f \<Rightarrow>
          (Inl (Fault f),
           t @ [Log INFO (''Making '' @ verb_name v @ '' request to '' @ url),
                Request h v (request_url P url os) (request_options c os)])
      | Inr r \<Rightarrow>
          (Inr (fst (processResponse r [])),
           snd (processResponse r
                  (t @ [Log INFO (''Making '' @ verb_name v @ '' request to '' @ url),
                        Request h v (request_url P url os) (request_options c os)]))))"
  using assms verb_of_verb_name [of v]
  by (simp add: makeRequest_def Let_def split_beta transport_answer_def request_url_def
      request_options_def processResponse_envelope split: sum.splits)

lemma processResponse_extends: "\<exists>ls. snd (processResponse r t) = t @ ls"
  by (simp add: processResponse_def Let_def split: sum.splits)

lemma makeRequest_request_in_trace:
  assumes "api_context c = Some h"
  shows "Request h v (request_url P url os) (request_options c os)
           \<in> set (snd (makeRequest P c (verb_name v) url os t))"
proof (cases "transport_answer P h c v url os t")
  case (Inl f)
  then show ?thesis
    by (simp add: makeRequest_sends [OF assms])
next
  case (Inr r)
  obtain ls where "snd (processResponse r
                  (t @ [Log INFO (''Making '' @ verb_name v @ '' request to '' @ url),
                        Request h v (request_url P url os) (request_options c os)]))
       = (t @ [Log INFO (''Making '' @ verb_name v @ '' request to '' @ url),
                        Request h v (request_url P url os) (request_options c os)]) @ ls"
    using processResponse_extends by blast
  with Inr show ?thesis
    by (simp add: makeRequest_sends [OF assms])
qed

text \<open>
  C2. On a client with an open context, each of \<open>get\<close>, \<open>post\<close>, \<open>put\<close>, \<open>patch\<close> and
  \<open>delete\<close> sends one request, the one \<open>transport_answer\<close> speaks of. When the transport
  answers that request with a response whose status is outside 200..299 (and whose
  \<open>ok()\<close> follows the status, as the library's does), the call returns an envelope
  instead of an error: its status is the response's status, its ok flag is false, and its
  headers are the response's. Nothing is asked of the transport's answers to other
  requests.
\<close>

theorem non_2xx_response_is_returned:
  assumes "api_context c = Some h"
    and "ok_from_status r"
    and "\<not> (200 \<le> resp_status r \<and> resp_status r \<le> 299)"
  shows "\<forall>(outcome, v, os) \<in>
            {(get P c url options t, GET, options),
             (post P c url d options t, POST, options\<lparr>opt_data := d\<rparr>),
             (put P c url d options t, PUT, options\<lparr>opt_data := d\<rparr>),
             (patch P c url d options t, PATCH, options\<lparr>opt_data := d\<rparr>),
             (delete P c url options t, DELETE, options)}.
           Request h v (request_url P url os) (request_options c os) \<in> set (snd outcome) \<and>
           (transport_answer P h c v url os t = Inr r \<longrightarrow>
              (\<exists>env. fst outcome = Inr env \<and> status env = resp_status r \<and> ok env = False
                    \<and> headers env = resp_headers r))"
proof -
  have nok: "resp_ok r = False"
    using assms(2,3) by (simp add: ok_from_status_def)
  have one: "Request h v (request_url P url os) (request_options c os)
               \<in> set (snd (makeRequest P c (verb_name v) url os t)) \<and>
           (transport_answer P h c v url os t = Inr r \<longrightarrow>
              (\<exists>env. fst (makeRequest P c (verb_name v) url os t) = Inr env \<and>
                 status env = resp_status r \<and> ok env = False \<and> headers env = resp_headers r))"
    for v os
    using makeRequest_request_in_trace [OF assms(1)] nok
    by (simp add: makeRequest_sends [OF assms(1)] processResponse_envelope)
  show ?thesis
    using one [of GET options] one [of POST "options\<lparr>opt_data := d\<rparr>"]
      one [of PUT "options\<lparr>opt_data := d\<rparr>"] one [of PATCH "options\<lparr>opt_data := d\<rparr>"]
      one [of DELETE options]
    by (simp add: get_def post_def put_def patch_def delete_def verb_name_def)
qed

theorem non_2xx_response_is_returned_witness:
  "api_context open_client = Some 0 \<and> ok_from_status not_found \<and>
   send routed [] 0 GET ''/health'' (request_options open_client no_options) = Inr healthy \<and>
   transport_answer routed 0 open_client GET ''/users/42'' no_options [] = Inr not_found \<and>
   fst (get routed open_client ''/users/42'' no_options [])
     = Inr \<lparr>status = 404, headers = [''content-type'' \<mapsto> ''text/plain''],
            data = JString ''Not Found'', ok = False\<rparr>"
proof -
  have a: "api_context open_client = Some 0"
    by (simp add: open_client_def)
  have b: "transport_answer routed 0 open_client GET ''/users/42'' no_options [] = Inr not_found"
    by (simp add: transport_answer_def routed_def request_url_def no_options_def)
  have c: "ok_from_status not_found"
    by (simp add: ok_from_status_def not_found_def)
  have d: "\<not> (200 \<le> resp_status not_found \<and> resp_status not_found \<le> 299)"
    by (simp add: not_found_def)
  have e: "data (fst (processResponse not_found [])) = JString ''Not Found''"
    by (simp add: processResponse_def Let_def not_found_def)
  have h: "send routed [] 0 GET ''/health'' (request_options open_client no_options) = Inr healthy"
    by (simp add: routed_def)
  from non_2xx_response_is_returned [OF a c d, of routed "''/users/42''" no_options "[]" None] b
  obtain env where env:
    "fst (get routed open_client ''/users/42'' no_options []) = Inr env"
    "status env = resp_status not_found" "ok env = False" "headers env = resp_headers not_found"
    by auto
  have "fst (makeRequest routed open_client (verb_name GET) ''/users/42'' no_options [])
          = Inr (fst (processResponse not_found []))"
    using b by (simp add: makeRequest_sends [OF a])
  then have "data env = JString ''Not Found''"
    using env(1) e by (simp add: get_def verb_name_def)
  then show ?thesis
    using a b c h env by (cases env) (simp add: not_found_def)
qed

text \<open>
  C6. \<open>processResponse\<close> always yields an envelope whose status, headers and ok flag are
  the response's. When the body reader it selects (\<open>json()\<close> for a content type that
  includes \<open>application/json\<close>, \<open>text()\<close> otherwise) throws, the envelope's body is null
  and a warning is logged; a verb call answered by such a response returns that
  envelope, not an error.
\<close>

theorem body_decoding_never_throws:
  "status (fst (processResponse r t)) = resp_status r \<and>
   headers (fst (processResponse r t)) = resp_headers r \<and>
   ok (fst (processResponse r t)) = resp_ok r \<and>
   ((if str_includes (case resp_headers r ''content-type'' of None \<Rightarrow> [] | Some v \<Rightarrow> v)
          ''application/json''
     then resp_json r = Inl f else resp_text r = Inl f)
    \<longrightarrow> data (fst (processResponse r t)) = JNull \<and>
        Log WARN ''Failed to parse response body'' \<in> set (snd (processResponse r t)) \<and>
        (api_context c = Some h \<and> verb_of (toUpperCase m) = Some v \<and>
         (\<forall>hist u ro. send P hist h v u ro = Inr r)
         \<longrightarrow> (\<exists>env. fst (makeRequest P c m url os t0) = Inr env \<and> data env = JNull \<and>
                    status env = resp_status r \<and> headers env = resp_headers r \<and>
                    ok env = resp_ok r)))"
proof -
  have warn: "Log WARN ''Failed to parse response body'' \<in> set (snd (processResponse r t))"
    if "(if str_includes (case resp_headers r ''content-type'' of None \<Rightarrow> [] | Some v \<Rightarrow> v)
          ''application/json''
     then resp_json r = Inl f else resp_text r = Inl f)"
    using that by (auto simp: processResponse_def Let_def split: if_splits)
  have call: "fst (makeRequest P c m url os t0) = Inr (fst (processResponse r []))"
    if "api_context c = Some h" "verb_of (toUpperCase m) = Some v"
       "\<forall>hist u ro. send P hist h v u ro = Inr r"
    using that by (rule makeRequest_answered)
  show ?thesis
    using warn call by (auto simp: processResponse_envelope split: if_splits)
qed

theorem body_decoding_never_throws_witness:
  "str_includes ''application/json; charset=utf-8'' ''application/json'' \<and>
   (\<exists>f. resp_json garbled = Inl f) \<and>
   fst (processResponse garbled [])
     = \<lparr>status = 200, headers = [''content-type'' \<mapsto> ''application/json; charset=utf-8''],
        data = JNull, ok = True\<rparr>"
proof -
  have ct: "(case resp_headers garbled ''content-type'' of None \<Rightarrow> [] | Some v \<Rightarrow> v)
              = ''application/json; charset=utf-8''"
    by (simp add: garbled_def)
  have inc: "str_includes ''application/json; charset=utf-8'' ''application/json''"
    by simp
  have fails: "resp_json garbled = Inl ''Unexpected token < in JSON at position 0''"
    by (simp add: garbled_def)
  have hyp: "(if str_includes (case resp_headers garbled ''content-type'' of None \<Rightarrow> [] | Some v \<Rightarrow> v)
          ''application/json''
     then resp_json garbled = Inl ''Unexpected token < in JSON at position 0''
     else resp_text garbled = Inl ''Unexpected token < in JSON at position 0'')"
    unfolding ct using inc fails by simp
  have "status (fst (processResponse garbled [])) = resp_status garbled \<and>
        headers (fst (processResponse garbled [])) = resp_headers garbled \<and>
        ok (fst (processResponse garbled [])) = resp_ok garbled \<and>
        data (fst (processResponse garbled [])) = JNull"
    using hyp body_decoding_never_throws [of garbled "[]" "''Unexpected token < in JSON at position 0''"]
    by blast
  then show ?thesis
    using inc fails by (cases "fst (processResponse garbled [])") (simp add: garbled_def)
qed

section \<open>The health probe\<close>

lemma get_health:
  assumes "api_context c = Some h"
  shows "fst (get P c ''/health'' no_options t) =
      (case send P (t @ [Log INFO ''Making GET request to /health'']) h GET ''/health''
              \<lparr>ro_headers = Some (defaultHeaders c), ro_timeout = Some 30000, ro_data = None,
               ro_multipart = None\<rparr> of
         Inl f \<Rightarrow> Inl (Fault f)
       | Inr r \<Rightarrow> Inr (fst (processResponse r [])))"
  using assms verb_of_literals(1)
  by (simp add: get_def makeRequest_def Let_def no_options_def split_beta processResponse_envelope
      split: sum.splits)

text \<open>
  C5. \<open>healthCheck\<close> returns a boolean in every case: false whenever the GET to
  \<open>/health\<close> raises anything (the client has no context, or the transport faults), and
  the envelope's ok flag, which is the response's, when the GET returns.
\<close>

theorem healthCheck_never_throws:
  "fst (healthCheck P c t) =
     (case fst (get P c ''/health'' no_options t) of Inl e \<Rightarrow> False | Inr env \<Rightarrow> ok env) \<and>
   (api_context c = None \<longrightarrow> fst (healthCheck P c t) = False) \<and>
   (api_context c = Some h \<and>
    send P (t @ [Log INFO ''Making GET request to /health'']) h GET ''/health''
      \<lparr>ro_headers = Some (defaultHeaders c), ro_timeout = Some 30000, ro_data = None,
       ro_multipart = None\<rparr> = Inl f
      \<longrightarrow> fst (healthCheck P c t) = False) \<and>
   (api_context c = Some h \<and>
    send P (t @ [Log INFO ''Making GET request to /health'']) h GET ''/health''
      \<lparr>ro_headers = Some (defaultHeaders c), ro_timeout = Some 30000, ro_data = None,
       ro_multipart = None\<rparr> = Inr r
      \<longrightarrow> fst (healthCheck P c t) = resp_ok r)"
proof -
  have 1: "fst (healthCheck P c t) =
     (case fst (get P c ''/health'' no_options t) of Inl e \<Rightarrow> False | Inr env \<Rightarrow> ok env)"
    by (simp add: healthCheck_def split: prod.splits sum.splits)
  have 2: "fst (get P c ''/health'' no_options t) = Inl NotInitialized" if "api_context c = None"
    using that by (simp add: get_def makeRequest_def)
  show ?thesis
    using 1 2 get_health [of c h P t] by (auto simp: processResponse_envelope)
qed

theorem healthCheck_never_throws_witness:
  "fst (healthCheck (fixed_platform (Inl ''connect ECONNREFUSED'')) open_client []) = False \<and>
   fst (healthCheck (fixed_platform (Inr healthy)) open_client []) = True \<and>
   fst (healthCheck (fixed_platform (Inr not_found)) open_client []) = False \<and>
   fst (healthCheck (fixed_platform (Inr healthy)) example_client []) = False"
proof -
  have a: "api_context open_client = Some 0" "api_context example_client = None"
    by (simp_all add: open_client_def example_client_def new_ApiClient_def)
  have s: "send (fixed_platform x) hist 0 GET u ro = x" for x hist u ro
    by (simp add: fixed_platform_def)
  have 1: "fst (healthCheck (fixed_platform (Inl ''connect ECONNREFUSED'')) open_client []) = False"
    using healthCheck_never_throws [of "fixed_platform (Inl ''connect ECONNREFUSED'')" open_client
        "[]" 0 "''connect ECONNREFUSED''" healthy] a(1) s
    by blast
  have 2: "fst (healthCheck (fixed_platform (Inr healthy)) open_client []) = resp_ok healthy"
    using healthCheck_never_throws [of "fixed_platform (Inr healthy)" open_client
        "[]" 0 "''connect ECONNREFUSED''" healthy] a(1) s
    by blast
  have 3: "fst (healthCheck (fixed_platform (Inr not_found)) open_client []) = resp_ok not_found"
    using healthCheck_never_throws [of "fixed_platform (Inr not_found)" open_client
        "[]" 0 "''connect ECONNREFUSED''" not_found] a(1) s
    by blast
  have 4: "fst (healthCheck (fixed_platform (Inr healthy)) example_client []) = False"
    using healthCheck_never_throws [of "fixed_platform (Inr healthy)" example_client
        "[]" 0 "''connect ECONNREFUSED''" healthy] a(2)
    by blast
  show ?thesis
    using 1 2 3 4 by (simp add: healthy_def not_found_def)
qed

section \<open>The bearer token\<close>

text \<open>
  C10. \<open>setAuthToken\<close> sets the \<open>Authorization\<close> entry of the default headers to
  \<open>Bearer\<close> followed by the token and \<open>clearAuthToken\<close> removes that entry; every other
  entry, the base URL and the context are as before, and neither sends a request.
  A verb call made afterwards on an open client sends as its headers exactly the
  updated default headers overlaid with the call's own headers.
\<close>

theorem auth_token_touches_only_authorization:
  "defaultHeaders (fst (setAuthToken c token t)) ''Authorization'' = Some (''Bearer '' @ token) \<and>
   defaultHeaders (fst (clearAuthToken c t)) ''Authorization'' = None \<and>
   (\<forall>k. k \<noteq> ''Authorization'' \<longrightarrow>
        defaultHeaders (fst (setAuthToken c token t)) k = defaultHeaders c k \<and>
        defaultHeaders (fst (clearAuthToken c t)) k = defaultHeaders c k) \<and>
   baseURL (fst (setAuthToken c token t)) = baseURL c \<and>
   baseURL (fst (clearAuthToken c t)) = baseURL c \<and>
   api_context (fst (setAuthToken c token t)) = api_context c \<and>
   api_context (fst (clearAuthToken c t)) = api_context c \<and>
   requests (snd (setAuthToken c token t)) = requests t \<and>
   requests (snd (clearAuthToken c t)) = requests t \<and>
   (\<forall>c'. c' \<in> {fst (setAuthToken c token t), fst (clearAuthToken c t)} \<and> api_context c = Some h
      \<longrightarrow>
      (\<forall>outcome \<in> {get P c' url options t', post P c' url d options t', put P c' url d options t',
                       patch P c' url d options t', delete P c' url options t'}.
         sent_headers (snd outcome) =
           sent_headers t' @
           [Some (defaultHeaders c'
                    ++ (case opt_headers options of None \<Rightarrow> Map.empty | Some x \<Rightarrow> x))]))"
proof -
  have frame:
    "defaultHeaders (fst (setAuthToken c token t))
       = (defaultHeaders c)(''Authorization'' \<mapsto> ''Bearer '' @ token)"
    "defaultHeaders (fst (clearAuthToken c t)) = (defaultHeaders c)(''Authorization'' := None)"
    "baseURL (fst (setAuthToken c token t)) = baseURL c"
    "baseURL (fst (clearAuthToken c t)) = baseURL c"
    "api_context (fst (setAuthToken c token t)) = api_context c"
    "api_context (fst (clearAuthToken c t)) = api_context c"
    "requests (snd (setAuthToken c token t)) = requests t"
    "requests (snd (clearAuthToken c t)) = requests t"
    by (simp_all add: setAuthToken_def clearAuthToken_def requests_append)
  have verbs:
    "\<forall>outcome \<in> {get P c' url options t', post P c' url d options t', put P c' url d options t',
                       patch P c' url d options t', delete P c' url options t'}.
         sent_headers (snd outcome) =
           sent_headers t' @
           [Some (defaultHeaders c'
                    ++ (case opt_headers options of None \<Rightarrow> Map.empty | Some x \<Rightarrow> x))]"
    if "api_context c' = Some h" for c'
    using makeRequest_sent_headers [OF that] verb_of_literals
    by (simp add: get_def post_def put_def patch_def delete_def)
  show ?thesis
    using frame verbs by auto
qed

theorem auth_token_touches_only_authorization_witness:
  "api_context open_client = Some 0 \<and> ''Accept'' \<noteq> ''Authorization'' \<and>
   defaultHeaders (fst (setAuthToken open_client ''s3cr3t'' [])) ''Accept''
     = Some ''application/json'' \<and>
   defaultHeaders (fst (setAuthToken open_client ''s3cr3t'' [])) ''Authorization''
     = Some ''Bearer s3cr3t'' \<and>
   sent_headers
     (snd (get (fixed_platform (Inr healthy)) (fst (setAuthToken open_client ''s3cr3t'' []))
             ''/me'' no_options []))
     = [Some ([''Content-Type'' \<mapsto> ''application/json'', ''Accept'' \<mapsto> ''application/json'',
               ''Authorization'' \<mapsto> ''Bearer s3cr3t''])]"
proof -
  have a: "api_context open_client = Some 0"
    by (simp add: open_client_def)
  have b: "defaultHeaders open_client
             = [''Content-Type'' \<mapsto> ''application/json'', ''Accept'' \<mapsto> ''application/json'']"
    by (simp add: open_client_def example_client_def new_ApiClient_def)
  have c: "defaultHeaders (fst (setAuthToken open_client ''s3cr3t'' []))
             = [''Content-Type'' \<mapsto> ''application/json'', ''Accept'' \<mapsto> ''application/json'',
                ''Authorization'' \<mapsto> ''Bearer s3cr3t'']"
    by (simp add: setAuthToken_def b)
  show ?thesis
    using a c
      auth_token_touches_only_authorization [of open_client "''s3cr3t''" "[]" 0
        "fixed_platform (Inr healthy)" "''/me''" no_options "[]" None]
    by (simp add: no_options_def)
qed

section \<open>Polling for readiness\<close>

lemma checking_message_starts:
  "starts_with (checking_message a n) ''Checking API readiness''"
  by (simp add: checking_message_def)

lemma makeRequest_poll_events:
  assumes "\<not> starts_with (''Making '' @ m) ''Checking API readiness''"
  shows "poll_events (snd (makeRequest P c m url os t)) = poll_events t"
  using assms
  by (simp add: makeRequest_def Let_def split_beta poll_events_append processResponse_poll_events
      split: option.splits sum.splits)

lemma healthCheck_poll_events: "poll_events (snd (healthCheck P c t)) = poll_events t"
proof -
  have "poll_events (snd (get P c ''/health'' no_options t)) = poll_events t"
    unfolding get_def by (rule makeRequest_poll_events) simp
  then show ?thesis
    by (cases "get P c ''/health'' no_options t")
       (auto simp: healthCheck_def poll_events_append split: sum.splits)
qed

lemma concat_replicate_snoc: "concat (replicate (Suc k) xs) = concat (replicate k xs) @ xs"
  by (induction k) simp_all

lemma health_check_no_poll_events:
  "poll_events (snd (health_check_no P c n d t k)) = poll_events (loop_head P c n d t k) @ [Checked]"
  by (simp add: health_check_no_def healthCheck_poll_events poll_events_append checking_message_starts)

lemma loop_head_poll_events:
  "int k < n \<Longrightarrow>
   poll_events (loop_head P c n d t k) = poll_events t @ concat (replicate k [Checked, Waited d])"
proof (induction k)
  case 0
  then show ?case by simp
next
  case (Suc k)
  then have "int k < n" "int k + 1 < n" by simp_all
  with Suc.IH show ?case
    by (simp add: Let_def healthCheck_poll_events poll_events_append checking_message_starts
        waiting_message_def concat_replicate_snoc del: replicate_Suc concat.simps)
qed

lemma waitLoop_skip:
  "(\<forall>j<k. \<not> fst (health_check_no P c n d t j)) \<Longrightarrow> int k \<le> n \<Longrightarrow>
   waitLoop P c n d 1 t = waitLoop P c n d (int k + 1) (loop_head P c n d t k)"
proof (induction k)
  case 0
  then show ?case by simp
next
  case (Suc k)
  then have IH: "waitLoop P c n d 1 t = waitLoop P c n d (int k + 1) (loop_head P c n d t k)"
    by simp
  have le: "int k + 1 \<le> n" using Suc.prems by simp
  have nok: "\<not> fst (health_check_no P c n d t k)" using Suc.prems by simp
  have "waitLoop P c n d (int k + 1) (loop_head P c n d t k) =
        waitLoop P c n d (int (Suc k) + 1) (loop_head P c n d t (Suc k))"
    using le nok
    by (subst waitLoop.simps) (simp add: Let_def health_check_no_def add.commute)
  with IH show ?case by simp
qed


lemma healthCheck_fixed:
  "fst (healthCheck (fixed_platform (Inr r)) open_client T) = resp_ok r"
proof -
  have "api_context open_client = Some 0"
    by (simp add: open_client_def)
  from get_health [OF this, of "fixed_platform (Inr r)" T]
  show ?thesis
    by (cases "get (fixed_platform (Inr r)) open_client ''/health'' no_options T")
       (auto simp: healthCheck_def fixed_platform_def processResponse_envelope)
qed

lemma count_waits:
  "length (filter (\<lambda>e. e = Waited d) (concat (replicate k [Checked, Waited d]))) = k"
  by (induction k) simp_all

lemma healthCheck_warming_up:
  "fst (healthCheck warming_up open_client T)
     = (2 \<le> length (filter (\<lambda>e. e = Waited 10) (poll_events T)))"
proof -
  have "api_context open_client = Some 0"
    by (simp add: open_client_def)
  from get_health [OF this, of warming_up T]
  show ?thesis
    by (cases "get warming_up open_client ''/health'' no_options T")
       (auto simp: healthCheck_def warming_up_def processResponse_envelope poll_events_append
          healthy_def split: if_splits)
qed

lemma warming_up_checks:
  "int k < 3 \<Longrightarrow> fst (health_check_no warming_up open_client 3 10 [] k) = (2 \<le> k)"
  by (simp add: health_check_no_def healthCheck_warming_up poll_events_append
      loop_head_poll_events count_waits checking_message_starts)

lemma replicate_two: "concat (replicate 2 [Checked, Waited d]) = [Checked, Waited d, Checked, Waited d]"
  by (simp add: numeral_2_eq_2)

text \<open>
  C3. Let \<open>1 \<le> n\<close>, and number the health checks of a run from 0, so that
  \<open>health_check_no k\<close> is the one made in attempt \<open>k + 1\<close>. If health check \<open>k\<close> (with
  \<open>k < n\<close>) is the first to answer true, \<open>waitForApiReady n d\<close> returns normally
  with the trace that health check left plus the "ready" log line: \<open>k + 1\<close> attempts
  were announced, with one pause of \<open>d\<close> between each two, and nothing comes after the
  last. If all \<open>n\<close> health checks answer false it fails with the readiness error right
  after the last one, having made \<open>n\<close> attempts with \<open>n - 1\<close> pauses of \<open>d\<close> between them.
\<close>

theorem waitForApiReady_polls:
  assumes "1 \<le> n"
  shows "(\<forall>k. int k < n \<and> (\<forall>j<k. \<not> fst (health_check_no P c n d t j)) \<and>
              fst (health_check_no P c n d t k) \<longrightarrow>
            waitForApiReady P c n d t
              = (Inr (), snd (health_check_no P c n d t k) @ [Log INFO ''API is ready'']) \<and>
            poll_events (snd (waitForApiReady P c n d t))
              = poll_events t @ concat (replicate k [Checked, Waited d]) @ [Checked]) \<and>
         ((\<forall>j. int j < n \<longrightarrow> \<not> fst (health_check_no P c n d t j)) \<longrightarrow>
            waitForApiReady P c n d t
              = (Inl NotReady, snd (health_check_no P c n d t (nat n - 1))) \<and>
            poll_events (snd (waitForApiReady P c n d t))
              = poll_events t @ concat (replicate (nat n - 1) [Checked, Waited d]) @ [Checked])"
proof (intro conjI allI impI)
  fix k
  assume h: "int k < n \<and> (\<forall>j<k. \<not> fst (health_check_no P c n d t j)) \<and>
              fst (health_check_no P c n d t k)"
  then have "waitLoop P c n d 1 t = waitLoop P c n d (int k + 1) (loop_head P c n d t k)"
    by (intro waitLoop_skip) auto
  also have "\<dots> = (Inr (), snd (health_check_no P c n d t k) @ [Log INFO ''API is ready''])"
    using h by (subst waitLoop.simps) (simp add: Let_def health_check_no_def)
  finally show r: "waitForApiReady P c n d t
              = (Inr (), snd (health_check_no P c n d t k) @ [Log INFO ''API is ready''])"
    by (simp add: waitForApiReady_def)
  show "poll_events (snd (waitForApiReady P c n d t))
              = poll_events t @ concat (replicate k [Checked, Waited d]) @ [Checked]"
    using h by (simp add: r poll_events_append health_check_no_poll_events loop_head_poll_events)
next
  assume h: "\<forall>j. int j < n \<longrightarrow> \<not> fst (health_check_no P c n d t j)"
  define m where "m = nat n - 1"
  have m: "int m + 1 = n" "int m < n" using assms by (simp_all add: m_def)
  have "waitLoop P c n d 1 t = waitLoop P c n d (int m + 1) (loop_head P c n d t m)"
    using h m by (intro waitLoop_skip) auto
  also have "\<dots> = waitLoop P c n d (int m + 1 + 1) (snd (health_check_no P c n d t m))"
  proof -
    have nok: "\<not> fst (healthCheck P c
                 (loop_head P c n d t m @ [Log INFO (checking_message (int m + 1) n)]))"
      using h m(2) by (simp add: health_check_no_def)
    have le: "int m + 1 \<le> n" "\<not> int m + 1 < n"
      using m(1) by simp_all
    show ?thesis
      by (subst waitLoop.simps) (simp add: Let_def health_check_no_def nok le)
  qed
  also have "\<dots> = waitLoop P c n d (n + 1) (snd (health_check_no P c n d t m))"
    using m(1) by simp
  also have "\<dots> = (Inl NotReady, snd (health_check_no P c n d t m))"
    by (subst waitLoop.simps) simp
  finally show r: "waitForApiReady P c n d t
              = (Inl NotReady, snd (health_check_no P c n d t (nat n - 1)))"
    by (simp add: waitForApiReady_def m_def)
  show "poll_events (snd (waitForApiReady P c n d t))
              = poll_events t @ concat (replicate (nat n - 1) [Checked, Waited d]) @ [Checked]"
    using m by (simp add: r health_check_no_poll_events loop_head_poll_events m_def)
qed


theorem waitForApiReady_polls_witness:
  "fst (waitForApiReady (fixed_platform (Inr not_found)) open_client 3 10 []) = Inl NotReady \<and>
   poll_events (snd (waitForApiReady (fixed_platform (Inr not_found)) open_client 3 10 []))
     = [Checked, Waited 10, Checked, Waited 10, Checked] \<and>
   fst (waitForApiReady warming_up open_client 3 10 []) = Inr () \<and>
   poll_events (snd (waitForApiReady warming_up open_client 3 10 []))
     = [Checked, Waited 10, Checked, Waited 10, Checked] \<and>
   poll_events (snd (waitForApiReady (fixed_platform (Inr healthy)) open_client 3 10 []))
     = [Checked]"
proof -
  have down: "\<forall>j. int j < 3 \<longrightarrow>
      \<not> fst (health_check_no (fixed_platform (Inr not_found)) open_client 3 10 [] j)"
    by (simp add: health_check_no_def healthCheck_fixed not_found_def)
  have up: "int 0 < 3 \<and>
      (\<forall>j<0. \<not> fst (health_check_no (fixed_platform (Inr healthy)) open_client 3 10 [] j)) \<and>
      fst (health_check_no (fixed_platform (Inr healthy)) open_client 3 10 [] 0)"
    by (simp add: health_check_no_def healthCheck_fixed healthy_def)
  have warm: "int 2 < 3 \<and>
      (\<forall>j<2. \<not> fst (health_check_no warming_up open_client 3 10 [] j)) \<and>
      fst (health_check_no warming_up open_client 3 10 [] 2)"
    by (simp add: warming_up_checks)
  have one: "(1::int) \<le> 3" by simp
  note a = waitForApiReady_polls [OF one, of "fixed_platform (Inr not_found)" open_client 10 "[]"]
  note b = waitForApiReady_polls [OF one, of warming_up open_client 10 "[]"]
  note c = waitForApiReady_polls [OF one, of "fixed_platform (Inr healthy)" open_client 10 "[]"]
  have A: "waitForApiReady (fixed_platform (Inr not_found)) open_client 3 10 []
              = (Inl NotReady, snd (health_check_no (fixed_platform (Inr not_found)) open_client 3 10 [] (nat 3 - 1)))"
    "poll_events (snd (waitForApiReady (fixed_platform (Inr not_found)) open_client 3 10 []))
              = poll_events [] @ concat (replicate (nat 3 - 1) [Checked, Waited 10]) @ [Checked]"
    using a down by blast+
  have B: "waitForApiReady warming_up open_client 3 10 []
              = (Inr (), snd (health_check_no warming_up open_client 3 10 [] 2) @ [Log INFO ''API is ready''])"
    "poll_events (snd (waitForApiReady warming_up open_client 3 10 []))
              = poll_events [] @ concat (replicate 2 [Checked, Waited 10]) @ [Checked]"
    using b warm by blast+
  have C: "poll_events (snd (waitForApiReady (fixed_platform (Inr healthy)) open_client 3 10 []))
              = poll_events [] @ concat (replicate 0 [Checked, Waited 10]) @ [Checked]"
    using c up by blast
  have n: "nat 3 - 1 = 2" by simp
  show ?thesis
    using A B C unfolding n by (simp add: replicate_two)
qed


section \<open>Random draws stay within their vocabularies\<close>

lemma floor_scale:
  fixes r :: rat
  assumes "0 \<le> r" and "r < 1" and "0 < n"
  shows "0 \<le> \<lfloor>r * of_int n\<rfloor>" and "\<lfloor>r * of_int n\<rfloor> < n"
proof -
  show "0 \<le> \<lfloor>r * of_int n\<rfloor>"
    using assms by simp
  have "r * of_int n < 1 * of_int n"
    using assms by (intro mult_strict_right_mono) simp_all
  then show "\<lfloor>r * of_int n\<rfloor> < n"
    by (simp add: floor_less_iff)
qed

lemma pick_in_set:
  assumes "0 \<le> r" and "r < 1" and "xs \<noteq> []"
  shows "pick xs r \<in> set xs"
proof -
  have "0 < int (length xs)" using assms(3) by simp
  from floor_scale [OF assms(1,2) this]
  have "0 \<le> \<lfloor>r * of_nat (length xs)\<rfloor>" and "\<lfloor>r * of_nat (length xs)\<rfloor> < int (length xs)"
    by simp_all
  then have "nat \<lfloor>r * of_nat (length xs)\<rfloor> < length xs"
    by linarith
  then show ?thesis
    by (simp add: pick_def)
qed

lemma Math_random_range:
  "random_ok s \<Longrightarrow> 0 \<le> fst (Math_random s) \<and> fst (Math_random s) < 1"
  by (simp add: random_ok_def Math_random_def)

lemma Math_random_ok [simp]: "random_ok s \<Longrightarrow> random_ok (snd (Math_random s))"
  by (simp add: random_ok_def Math_random_def)

lemma Math_random_clock [simp]: "clock (snd (Math_random s)) = clock s"
  by (simp add: Math_random_def)

lemma Date_now_ok [simp]: "random_ok (snd (Date_now s)) = random_ok s"
  by (simp add: random_ok_def Date_now_def)

lemma Date_now_fst [simp]: "fst (Date_now s) = clock s 0"
  by (simp add: Date_now_def)

lemma skip_randoms_ok [simp]: "random_ok s \<Longrightarrow> random_ok (skip_randoms k s)"
  by (simp add: random_ok_def skip_randoms_def)

lemma skip_randoms_clock [simp]: "clock (skip_randoms k s) = clock s"
  by (simp add: skip_randoms_def)

lemma vocabularies_nonempty:
  "firstNames \<noteq> []" "lastNames \<noteq> []" "titles \<noteq> []" "descriptions \<noteq> []" "venues \<noteq> []"
  "streetNames \<noteq> []" "cities \<noteq> []" "states \<noteq> []"
  by (simp_all add: firstNames_def lastNames_def titles_def descriptions_def venues_def
      streetNames_def cities_def states_def)

lemma getRandomFirstName_facts [simp]:
  "random_ok s \<Longrightarrow> fst (getRandomFirstName s) \<in> set firstNames"
  "random_ok s \<Longrightarrow> random_ok (snd (getRandomFirstName s))"
  "clock (snd (getRandomFirstName s)) = clock s"
  using Math_random_range [of s]
  by (simp_all add: getRandomFirstName_def split_beta pick_in_set vocabularies_nonempty)

lemma getRandomLastName_facts [simp]:
  "random_ok s \<Longrightarrow> fst (getRandomLastName s) \<in> set lastNames"
  "random_ok s \<Longrightarrow> random_ok (snd (getRandomLastName s))"
  "clock (snd (getRandomLastName s)) = clock s"
  using Math_random_range [of s]
  by (simp_all add: getRandomLastName_def split_beta pick_in_set vocabularies_nonempty)

lemma generatePhoneNumber_facts [simp]:
  "random_ok s \<Longrightarrow> random_ok (snd (generatePhoneNumber s))"
  "clock (snd (generatePhoneNumber s)) = clock s"
  by (simp_all add: generatePhoneNumber_def split_beta Let_def)

lemma generatePhoneNumber_shape:
  assumes "random_ok s"
  shows "\<exists>a b c. fst (generatePhoneNumber s) = show_int a @ ''-'' @ show_int b @ ''-'' @ show_int c
           \<and> 100 \<le> a \<and> a \<le> 999 \<and> 100 \<le> b \<and> b \<le> 999 \<and> 1000 \<le> c \<and> c \<le> 9999"
proof -
  let ?s1 = "snd (Math_random s)"
  let ?s2 = "snd (Math_random ?s1)"
  note r1 = Math_random_range [OF assms]
  have ok1: "random_ok ?s1" using assms by simp
  note r2 = Math_random_range [OF ok1]
  have ok2: "random_ok ?s2" using ok1 by simp
  note r3 = Math_random_range [OF ok2]
  have a: "0 \<le> \<lfloor>fst (Math_random s) * 900\<rfloor>" "\<lfloor>fst (Math_random s) * 900\<rfloor> < 900"
    using floor_scale [of "fst (Math_random s)" 900] r1 by simp_all
  have b: "0 \<le> \<lfloor>fst (Math_random ?s1) * 900\<rfloor>" "\<lfloor>fst (Math_random ?s1) * 900\<rfloor> < 900"
    using floor_scale [of "fst (Math_random ?s1)" 900] r2 by simp_all
  have c: "0 \<le> \<lfloor>fst (Math_random ?s2) * 9000\<rfloor>" "\<lfloor>fst (Math_random ?s2) * 9000\<rfloor> < 9000"
    using floor_scale [of "fst (Math_random ?s2)" 9000] r3 by simp_all
  show ?thesis
    apply (rule exI [of _ "\<lfloor>fst (Math_random s) * 900\<rfloor> + 100"])
    apply (rule exI [of _ "\<lfloor>fst (Math_random ?s1) * 900\<rfloor> + 100"])
    apply (rule exI [of _ "\<lfloor>fst (Math_random ?s2) * 9000\<rfloor> + 1000"])
    using a b c by (simp add: generatePhoneNumber_def split_beta Let_def)
qed

section \<open>The example engine keeps the contract of the sort\<close>

lemma skip_randoms_zero: "skip_randoms 0 s = s"
  by (simp add: skip_randoms_def)

lemma Math_random_skips: "snd (Math_random (skip_randoms k s)) = skip_randoms (Suc k) s"
  by (simp add: Math_random_def skip_randoms_def)

lemma insert_random_contract:
  "mset (fst (insert_random x ys (skip_randoms j s))) = add_mset x (mset ys) \<and>
   (\<exists>k. snd (insert_random x ys (skip_randoms j s)) = skip_randoms k s)"
proof (induction ys arbitrary: j)
  case Nil
  then show ?case by auto
next
  case (Cons y ys)
  from Cons [of "Suc j"] show ?case
    by (auto simp: split_beta Math_random_skips)
qed

lemma insertion_sort_contract':
  "mset (fst (insertion_sort xs s)) = mset xs \<and> (\<exists>k. snd (insertion_sort xs s) = skip_randoms k s)"
proof (induction xs)
  case Nil
  show ?case using skip_randoms_zero [of s] by (auto intro: exI [of _ 0])
next
  case (Cons x xs)
  then obtain k where k: "snd (insertion_sort xs s) = skip_randoms k s" by blast
  from insert_random_contract [of x "fst (insertion_sort xs s)" k s] Cons k
  show ?case
    by (simp add: split_beta)
qed

lemma insertion_sort_contract: "sort_contract insertion_sort"
  unfolding sort_contract_def using insertion_sort_contract' by blast

lemma example_runtime_ok: "random_ok example_runtime"
  by (simp add: random_ok_def example_runtime_def)


lemma iso_date_examples:
  "iso_date_of_day 0 = ''1970-01-01''"
  "toISODate 951782400000 = ''2000-02-29''"
  "toISODate 1793700000000 = ''2026-11-03''"
  by code_simp+

section \<open>Generated users\<close>

text \<open>
  C4. Under the contract of \<open>Math.random()\<close>, the record \<open>generateUser\<close> returns for a
  user type carries the base fields (a first and a last name from the vocabularies, the
  e-mail address built from the lower-cased first name and the clock, a phone number of
  three groups, the fixed password, the given user type), and of the three optional
  fields exactly these: none for \<open>fan\<close>; \<open>genre\<close> and \<open>bandMembers\<close> for \<open>band\<close>; \<open>genre\<close>
  and \<open>instruments\<close> for \<open>solo_artist\<close>.
\<close>

theorem generateUser_fields:
  assumes "random_ok s" and "u = fst (generateUser srt ut s)"
  shows "firstName u \<in> set firstNames \<and>
         lastName u \<in> set lastNames \<and>
         email u = ''test-'' @ toLowerCase (firstName u) @ ''-'' @ show_int (clock s 0)
                     @ ''@example.amazonses.com'' \<and>
         (\<exists>a b c. phone u = show_int a @ ''-'' @ show_int b @ ''-'' @ show_int c
           \<and> 100 \<le> a \<and> a \<le> 999 \<and> 100 \<le> b \<and> b \<le> 999 \<and> 1000 \<le> c \<and> c \<le> 9999) \<and>
         password u = ''TestPassword123!'' \<and>
         userType u = ut \<and>
         (ut = fan \<longrightarrow>
            UserData.genre u = None \<and> instruments u = None \<and> bandMembers u = None) \<and>
         (ut = band \<longrightarrow>
            UserData.genre u \<noteq> None \<and> bandMembers u \<noteq> None \<and> instruments u = None) \<and>
         (ut = solo_artist \<longrightarrow>
            UserData.genre u \<noteq> None \<and> instruments u \<noteq> None \<and> bandMembers u = None)"
proof -
  let ?s3 = "snd (Date_now (snd (getRandomLastName (snd (getRandomFirstName s)))))"
  have ok3: "random_ok ?s3" using assms(1) by simp
  have ph: "phone u = fst (generatePhoneNumber ?s3)"
    unfolding assms(2) by (cases ut) (simp_all add: generateUser_def Let_def split_beta)
  have rest: "firstName u \<in> set firstNames \<and>
         lastName u \<in> set lastNames \<and>
         email u = ''test-'' @ toLowerCase (firstName u) @ ''-'' @ show_int (clock s 0)
                     @ ''@example.amazonses.com'' \<and>
         password u = ''TestPassword123!'' \<and>
         userType u = ut \<and>
         (ut = fan \<longrightarrow>
            UserData.genre u = None \<and> instruments u = None \<and> bandMembers u = None) \<and>
         (ut = band \<longrightarrow>
            UserData.genre u \<noteq> None \<and> bandMembers u \<noteq> None \<and> instruments u = None) \<and>
         (ut = solo_artist \<longrightarrow>
            UserData.genre u \<noteq> None \<and> instruments u \<noteq> None \<and> bandMembers u = None)"
    unfolding assms(2) using assms(1)
    by (cases ut) (simp_all add: generateUser_def Let_def split_beta)
  show ?thesis
    using rest generatePhoneNumber_shape [OF ok3] ph by simp
qed



theorem generateUser_fields_witness:
  "random_ok example_runtime \<and>
   firstName (fst (generateUser insertion_sort fan example_runtime)) = ''Casey'' \<and>
   ''Casey'' \<in> set firstNames \<and>
   email (fst (generateUser insertion_sort fan example_runtime))
     = ''test-casey-1793700000000@example.amazonses.com'' \<and>
   bandMembers (fst (generateUser insertion_sort fan example_runtime)) = None \<and>
   bandMembers (fst (generateUser insertion_sort band example_runtime)) \<noteq> None \<and>
   instruments (fst (generateUser insertion_sort band example_runtime)) = None \<and>
   instruments (fst (generateUser insertion_sort solo_artist example_runtime)) \<noteq> None \<and>
   bandMembers (fst (generateUser insertion_sort solo_artist example_runtime)) = None"
proof -
  have fname: "firstName (fst (generateUser insertion_sort fan example_runtime)) = ''Casey''"
    by (simp add: generateUser_def split_beta Let_def getRandomFirstName_def Math_random_def
        example_runtime_def pick_def firstNames_def)
  have now: "show_int (clock example_runtime 0) = ''1793700000000''"
    by (simp add: example_runtime_def show_int_def show_nat.simps)
  have low: "toLowerCase ''Casey'' = ''casey''"
    by (simp add: toLowerCase_def lower_letters_def upper_letters_def)
  note a = generateUser_fields [OF example_runtime_ok refl, of insertion_sort fan]
  note b = generateUser_fields [OF example_runtime_ok refl, of insertion_sort band]
  note c = generateUser_fields [OF example_runtime_ok refl, of insertion_sort solo_artist]
  show ?thesis
    using a b c fname now low example_runtime_ok by simp
qed

lemma generateUser_userType: "userType (fst (generateUser srt ut s)) = ut"
  by (simp add: generateUser_def Let_def split_beta)

lemma users_loop_userTypes:
  "map userType (fst (users_loop srt cnt i users s))
     = map userType users @ map (\<lambda>j. userTypes ! (j mod length userTypes)) [i..<nat cnt]"
proof (induction srt cnt i users s rule: users_loop.induct)
  case (1 srt cnt i users s)
  show ?case
  proof (cases "int i < cnt")
    case True
    obtain u s1 where g: "generateUser srt (userTypes ! (i mod length userTypes)) s = (u, s1)"
      by (cases "generateUser srt (userTypes ! (i mod length userTypes)) s")
    have u: "userType u = userTypes ! (i mod length userTypes)"
      using generateUser_userType [of srt "userTypes ! (i mod length userTypes)" s] g by simp
    have upt: "[i..<nat cnt] = i # [i + 1..<nat cnt]"
      using True by (simp add: upt_conv_Cons)
    have "map userType (fst (users_loop srt cnt (i + 1) (users @ [u]) s1))
            = map userType (users @ [u])
              @ map (\<lambda>j. userTypes ! (j mod length userTypes)) [i + 1..<nat cnt]"
      using "1.IH" [OF True g [symmetric]] .
    then show ?thesis
      using True g u upt by (subst users_loop.simps) simp
  next
    case False
    then show ?thesis
      by (subst users_loop.simps) simp
  qed
qed

text \<open>
  C7. For a count \<open>n \<ge> 0\<close>, \<open>generateUsers n\<close> returns \<open>n\<close> records, and the user type of
  the record at index \<open>i\<close> is the entry at position \<open>i mod 3\<close> of the list
  \<open>['fan', 'band', 'solo_artist']\<close>.
\<close>

theorem generateUsers_round_robin:
  assumes "0 \<le> n"
  shows "length (fst (generateUsers srt n s)) = nat n \<and>
         (\<forall>i < nat n. userType (fst (generateUsers srt n s) ! i) = [fan, band, solo_artist] ! (i mod 3))"
proof -
  have m: "map userType (fst (generateUsers srt n s))
             = map (\<lambda>j. userTypes ! (j mod length userTypes)) [0..<nat n]"
    using users_loop_userTypes [of srt n 0 "[]" s] by (simp add: generateUsers_def)
  then have len: "length (fst (generateUsers srt n s)) = nat n"
    using length_map [of userType "fst (generateUsers srt n s)"] by simp
  have "userType (fst (generateUsers srt n s) ! i) = [fan, band, solo_artist] ! (i mod 3)"
    if "i < nat n" for i
  proof -
    have "userType (fst (generateUsers srt n s) ! i) = map userType (fst (generateUsers srt n s)) ! i"
      using that len by simp
    also have "\<dots> = userTypes ! (i mod length userTypes)"
      using that unfolding m by simp
    finally show ?thesis by (simp add: userTypes_def)
  qed
  with len show ?thesis by blast
qed


theorem generateUsers_round_robin_witness:
  "(0::int) \<le> 7 \<and>
   length (fst (generateUsers insertion_sort 7 example_runtime)) = 7 \<and>
   userType (fst (generateUsers insertion_sort 7 example_runtime) ! 3) = fan \<and>
   userType (fst (generateUsers insertion_sort 7 example_runtime) ! 4) = band \<and>
   userType (fst (generateUsers insertion_sort 7 example_runtime) ! 5) = solo_artist"
proof -
  have n: "(0::int) \<le> 7" by simp
  from generateUsers_round_robin [OF n, of insertion_sort example_runtime]
  have len: "length (fst (generateUsers insertion_sort 7 example_runtime)) = nat 7"
    and at: "\<And>i. i < nat 7 \<Longrightarrow>
      userType (fst (generateUsers insertion_sort 7 example_runtime) ! i)
        = [fan, band, solo_artist] ! (i mod 3)"
    by blast+
  show ?thesis
    using len at [of 3] at [of 4] at [of 5] by simp
qed

section \<open>Band rosters\<close>

lemma Math_random_bounds [simp]:
  "random_ok s \<Longrightarrow> 0 \<le> fst (Math_random s)"
  "random_ok s \<Longrightarrow> fst (Math_random s) < 1"
  using Math_random_range by blast+

lemma sort_contract_facts:
  assumes "sort_contract srt"
  shows "set (fst (srt xs s)) = set xs"
    and "length (fst (srt xs s)) = length xs"
    and "distinct (fst (srt xs s)) = distinct xs"
    and "random_ok s \<Longrightarrow> random_ok (snd (srt xs s))"
    and "clock (snd (srt xs s)) = clock s"
proof -
  have m: "mset (fst (srt xs s)) = mset xs"
    using assms by (simp add: sort_contract_def)
  show "set (fst (srt xs s)) = set xs"
    using m by (rule mset_eq_setD)
  show "length (fst (srt xs s)) = length xs"
    using m by (rule mset_eq_length)
  show "distinct (fst (srt xs s)) = distinct xs"
    using m by (rule mset_eq_imp_distinct_iff)
  obtain k where k: "snd (srt xs s) = skip_randoms k s"
    using assms unfolding sort_contract_def by blast
  show "random_ok s \<Longrightarrow> random_ok (snd (srt xs s))"
    by (simp add: k)
  show "clock (snd (srt xs s)) = clock s"
    by (simp add: k)
qed

lemma getRandomGenres_facts:
  assumes "sort_contract srt"
  shows "random_ok s \<Longrightarrow> random_ok (snd (getRandomGenres srt n s))"
    and "clock (snd (getRandomGenres srt n s)) = clock s"
    and "set (fst (getRandomGenres srt n s)) \<subseteq> set genres"
    and "0 \<le> n \<Longrightarrow> n \<le> 14 \<Longrightarrow> length (fst (getRandomGenres srt n s)) = nat n"
    and "distinct (fst (getRandomGenres srt n s))"
proof -
  note f = sort_contract_facts [OF assms, where xs = genres and s = s]
  have d: "distinct genres" "length genres = 14"
    by (simp_all add: genres_def)
  show "random_ok s \<Longrightarrow> random_ok (snd (getRandomGenres srt n s))"
    using f(4) by (simp add: getRandomGenres_def split_beta)
  show "clock (snd (getRandomGenres srt n s)) = clock s"
    using f(5) by (simp add: getRandomGenres_def split_beta)
  show "set (fst (getRandomGenres srt n s)) \<subseteq> set genres"
    using f(1) set_take_subset [of _ "fst (srt genres s)"]
    by (simp add: getRandomGenres_def split_beta slice0_def)
  show "0 \<le> n \<Longrightarrow> n \<le> 14 \<Longrightarrow> length (fst (getRandomGenres srt n s)) = nat n"
    using f(2) d(2) by (simp add: getRandomGenres_def split_beta slice0_def)
  show "distinct (fst (getRandomGenres srt n s))"
    using f(3) d(1) by (simp add: getRandomGenres_def split_beta slice0_def)
qed

lemma getRandomInstruments_facts:
  assumes "sort_contract srt"
  shows "random_ok s \<Longrightarrow> random_ok (snd (getRandomInstruments srt n s))"
    and "clock (snd (getRandomInstruments srt n s)) = clock s"
    and "set (fst (getRandomInstruments srt n s)) \<subseteq> set instrument_names"
    and "0 \<le> n \<Longrightarrow> n \<le> 14 \<Longrightarrow> length (fst (getRandomInstruments srt n s)) = nat n"
    and "distinct (fst (getRandomInstruments srt n s))"
proof -
  note f = sort_contract_facts [OF assms, where xs = instrument_names and s = s]
  have d: "distinct instrument_names" "length instrument_names = 14"
    by (simp_all add: instrument_names_def)
  show "random_ok s \<Longrightarrow> random_ok (snd (getRandomInstruments srt n s))"
    using f(4) by (simp add: getRandomInstruments_def split_beta)
  show "clock (snd (getRandomInstruments srt n s)) = clock s"
    using f(5) by (simp add: getRandomInstruments_def split_beta)
  show "set (fst (getRandomInstruments srt n s)) \<subseteq> set instrument_names"
    using f(1) set_take_subset [of _ "fst (srt instrument_names s)"]
    by (simp add: getRandomInstruments_def split_beta slice0_def)
  show "0 \<le> n \<Longrightarrow> n \<le> 14 \<Longrightarrow> length (fst (getRandomInstruments srt n s)) = nat n"
    using f(2) d(2) by (simp add: getRandomInstruments_def split_beta slice0_def)
  show "distinct (fst (getRandomInstruments srt n s))"
    using f(3) d(1) by (simp add: getRandomInstruments_def split_beta slice0_def)
qed

lemma members_loop_instruments:
  "map instrument (fst (members_loop instrs mc i members s))
     = map instrument members @ map (js_index instrs) [i..<nat mc]"
proof (induction instrs mc i members s rule: members_loop.induct)
  case (1 instrs mc i members s)
  show ?case
  proof (cases "int i < mc")
    case True
    obtain fname s1 where a: "getRandomFirstName s = (fname, s1)"
      by (cases "getRandomFirstName s")
    obtain lname s2 where b: "getRandomLastName s1 = (lname, s2)"
      by (cases "getRandomLastName s1")
    have upt: "[i..<nat mc] = i # [i + 1..<nat mc]"
      using True by (simp add: upt_conv_Cons)
    note IH = "1.IH" [OF True a [symmetric] b [symmetric]]
    show ?thesis
      using True a b upt IH by (subst members_loop.simps) simp
  next
    case False
    then show ?thesis
      by (subst members_loop.simps) simp
  qed
qed

lemma js_index_all: "map (js_index xs) [0..<length xs] = map Some xs"
  by (rule nth_equalityI) (simp_all add: js_index_def)

lemma generateBandMembers_instruments:
  assumes "random_ok s" and "sort_contract srt"
  shows "\<exists>xs. map instrument (fst (generateBandMembers srt s)) = map Some xs \<and>
           2 \<le> length xs \<and> length xs \<le> 5 \<and> distinct xs \<and> set xs \<subseteq> set instrument_names"
proof -
  define r where "r = fst (Math_random s)"
  define s1 where "s1 = snd (Math_random s)"
  define mc where "mc = \<lfloor>r * 4\<rfloor> + 2"
  define xs where "xs = fst (getRandomInstruments srt mc s1)"
  have r: "0 \<le> r" "r < 1"
    using assms(1) by (simp_all add: r_def)
  have mc: "2 \<le> mc" "mc \<le> 5"
    using floor_scale [of r 4] r by (simp_all add: mc_def)
  note f = getRandomInstruments_facts [OF assms(2), where s = s1 and n = mc]
  have len: "length xs = nat mc"
    unfolding xs_def using mc by (intro f(4)) simp_all
  have "map instrument (fst (generateBandMembers srt s)) = map (js_index xs) [0..<nat mc]"
    using members_loop_instruments [of xs mc 0 "[]"]
    by (simp add: generateBandMembers_def split_beta Let_def r_def s1_def mc_def xs_def)
  also have "\<dots> = map Some xs"
    using js_index_all [of xs] len by simp
  finally have "map instrument (fst (generateBandMembers srt s)) = map Some xs" .
  moreover have "2 \<le> length xs" "length xs \<le> 5"
    using len mc by simp_all
  moreover have "distinct xs" "set xs \<subseteq> set instrument_names"
    unfolding xs_def using f(5) f(3) by simp_all
  ultimately show ?thesis by blast
qed

text \<open>
  C8. Under the contracts of \<open>Math.random()\<close> and of the engine's sort, a \<open>band\<close> user
  has a \<open>bandMembers\<close> list of 2 to 5 members; every member's instrument is a name of
  the instrument vocabulary, and no instrument occurs twice in the roster.
\<close>

theorem band_members_roster:
  assumes "random_ok s" and "sort_contract srt"
  shows "\<exists>ms. bandMembers (fst (generateUser srt band s)) = Some ms \<and>
           2 \<le> length ms \<and> length ms \<le> 5 \<and>
           (\<forall>m \<in> set ms. \<exists>x \<in> set instrument_names. instrument m = Some x) \<and>
           distinct (map instrument ms)"
proof -
  define s4 where "s4 = snd (generatePhoneNumber (snd (Date_now (snd (getRandomLastName
                           (snd (getRandomFirstName s)))))))"
  define s5 where "s5 = snd (getRandomGenres srt 2 s4)"
  define ms where "ms = fst (generateBandMembers srt s5)"
  have "random_ok s4"
    using assms(1) by (simp add: s4_def)
  then have ok5: "random_ok s5"
    unfolding s5_def by (rule getRandomGenres_facts(1) [OF assms(2)])
  have bm: "bandMembers (fst (generateUser srt band s)) = Some ms"
    by (simp add: generateUser_def split_beta Let_def ms_def s5_def s4_def)
  obtain xs where xs: "map instrument ms = map Some xs" "2 \<le> length xs" "length xs \<le> 5"
      "distinct xs" "set xs \<subseteq> set instrument_names"
    using generateBandMembers_instruments [OF ok5 assms(2)] unfolding ms_def by blast
  have len: "length ms = length xs"
    using xs(1) length_map [of instrument ms] by simp
  have mem: "\<exists>x \<in> set instrument_names. instrument m = Some x" if "m \<in> set ms" for m
  proof -
    have "instrument m \<in> set (map instrument ms)" using that by simp
    then have "instrument m \<in> Some ` set xs" unfolding xs(1) by simp
    then show ?thesis using xs(5) by blast
  qed
  have "distinct (map instrument ms)"
    unfolding xs(1) using xs(4) by (simp add: distinct_map)
  with bm len xs(2,3) mem show ?thesis by auto
qed



theorem band_members_roster_witness:
  "random_ok example_runtime \<and> sort_contract insertion_sort \<and>
   (\<exists>ms. bandMembers (fst (generateUser insertion_sort band example_runtime)) = Some ms \<and>
      2 \<le> length ms \<and> length ms \<le> 5 \<and>
      (\<forall>m \<in> set ms. \<exists>x \<in> set instrument_names. instrument m = Some x) \<and>
      distinct (map instrument ms))"
  using band_members_roster [OF example_runtime_ok insertion_sort_contract]
    example_runtime_ok insertion_sort_contract
  by simp

section \<open>Generated events\<close>

lemma helpers_keep_contract [simp]:
  "random_ok s \<Longrightarrow> random_ok (snd (getRandomEventTitle s))"
  "random_ok s \<Longrightarrow> random_ok (snd (getRandomEventDescription s))"
  "random_ok s \<Longrightarrow> random_ok (snd (getRandomTime s))"
  "random_ok s \<Longrightarrow> random_ok (snd (getRandomVenue s))"
  "random_ok s \<Longrightarrow> random_ok (snd (getRandomAddress s))"
  "random_ok s \<Longrightarrow> random_ok (snd (getRandomCity s))"
  "random_ok s \<Longrightarrow> random_ok (snd (getRandomState s))"
  "random_ok s \<Longrightarrow> random_ok (snd (generateZipCode s))"
  by (simp_all add: getRandomEventTitle_def getRandomEventDescription_def getRandomTime_def
      getRandomVenue_def getRandomAddress_def getRandomCity_def getRandomState_def
      generateZipCode_def split_beta Let_def)

lemma day_begins_later:
  assumes "1 \<le> k"
  shows "now < (now div ms_per_day + k) * ms_per_day"
proof -
  have a: "now mod 86400000 < 86400000"
    by simp
  have b: "now = 86400000 * (now div 86400000) + now mod 86400000"
    by simp
  have c: "(now div 86400000 + k) * 86400000 = 86400000 * (now div 86400000) + 86400000 * k"
    by (simp add: algebra_simps)
  show ?thesis
    unfolding ms_per_day_def c using assms a b by linarith
qed

lemma toISODate_shift: "toISODate (now + k * ms_per_day) = iso_date_of_day (now div ms_per_day + k)"
  by (simp add: toISODate_def ms_per_day_def add.commute)

lemma day_shift_bounds:
  assumes "\<bar>dl\<bar> < ms_per_day"
  shows "\<exists>j. k - 1 \<le> j \<and> j \<le> k + 1 \<and>
           (now + k * ms_per_day + dl) div ms_per_day = now div ms_per_day + j"
proof -
  define x where "x = now + k * 86400000 + dl"
  have a: "now = 86400000 * (now div 86400000) + now mod 86400000"
      "0 \<le> now mod 86400000" "now mod 86400000 < 86400000"
    by simp_all
  have b: "x = 86400000 * (x div 86400000) + x mod 86400000"
      "0 \<le> x mod 86400000" "x mod 86400000 < 86400000"
    by simp_all
  have d: "- 86400000 < dl" "dl < 86400000"
    using assms by (simp_all add: ms_per_day_def)
  have lo: "now div 86400000 + k - 1 \<le> x div 86400000"
    using a b d unfolding x_def [symmetric] using x_def by linarith
  have hi: "x div 86400000 \<le> now div 86400000 + k + 1"
    using a b d unfolding x_def [symmetric] using x_def by linarith
  have "(now + k * ms_per_day + dl) div ms_per_day
          = now div ms_per_day + (x div 86400000 - now div 86400000)"
    by (simp add: ms_per_day_def x_def)
  moreover have "k - 1 \<le> x div 86400000 - now div 86400000"
      "x div 86400000 - now div 86400000 \<le> k + 1"
    using lo hi by simp_all
  ultimately show ?thesis by blast
qed

lemma constant_draws:
  assumes "sort_contract srt" and "randoms s = (\<lambda>i. c)"
  shows "fst (Math_random (snd (Date_now (snd (getRandomGenres srt 1 s))))) = c"
proof -
  obtain k where k: "snd (srt genres s) = skip_randoms k s"
    using assms(1) unfolding sort_contract_def by blast
  show ?thesis
    using assms(2)
    by (simp add: getRandomGenres_def split_beta k Math_random_def Date_now_def skip_randoms_def)
qed

lemma generateEvent_date:
  assumes "sort_contract srt"
  shows "date (fst (generateEvent srt tz s)) =
     toISODate (setDate_plus tz (clock s 0)
       (\<lfloor>fst (Math_random (snd (Date_now (snd (getRandomGenres srt 1 s))))) * 30\<rfloor> + 1))"
  using getRandomGenres_facts(2) [OF assms, of 1 s]
  by (simp add: generateEvent_def split_beta Let_def)

lemma call_runtimes_ok: "random_ok late_september" "random_ok early_march"
  by (simp_all add: random_ok_def late_september_def early_march_def)

lemma setDate_plus_shift:
  "setDate_plus tz now k =
     now + k * ms_per_day
       + (offset_at_utc tz now - offset_at_local tz (LocalTime tz now + k * ms_per_day))"
  by (simp add: setDate_plus_def UTC_def LocalTime_def)

text \<open>
  The date of an event is not always 1 to 30 days after the call. For a call in London
  at 2026-09-26T23:30Z (00:30 local time on 27 September) that draws 30 days, the local
  date 27 October 00:30 lies after the end of summer time, so the date printed is
  2026-10-27: 31 calendar days after the UTC date of the call, a day that begins more
  than 30 days after the call. For a call in New York at 2026-03-08T00:30Z (19:30 local
  time on 7 March) that draws 1 day, the local date 8 March 19:30 lies after the start of
  summer time, 23 hours after the call, and the date printed is 2026-03-08, the UTC date
  of the call itself.
\<close>

theorem generateEvent_date_counterexample:
  "toISODate (clock late_september 0) = ''2026-09-26'' \<and>
   date (fst (generateEvent insertion_sort london_2026 late_september)) = ''2026-10-27'' \<and>
   toISODate (clock late_september 0 + 31 * ms_per_day) = ''2026-10-27'' \<and>
   toISODate 1793059200000 = ''2026-10-27'' \<and>
   1793059200000 mod ms_per_day = 0 \<and>
   clock late_september 0 + 30 * ms_per_day < 1793059200000 \<and>
   toISODate (clock early_march 0) = ''2026-03-08'' \<and>
   date (fst (generateEvent insertion_sort new_york_2026 early_march)) = ''2026-03-08''"
proof -
  have c1: "clock late_september 0 = 1790465400000"
    by (simp add: late_september_def)
  have c2: "clock early_march 0 = 1772929800000"
    by (simp add: early_march_def)
  have r1: "fst (Math_random (snd (Date_now (snd (getRandomGenres insertion_sort 1 late_september)))))
              = 99 / 100"
    by (rule constant_draws [OF insertion_sort_contract]) (simp add: late_september_def)
  have r2: "fst (Math_random (snd (Date_now (snd (getRandomGenres insertion_sort 1 early_march)))))
              = 0"
    by (rule constant_draws [OF insertion_sort_contract]) (simp add: early_march_def)
  have k1: "\<lfloor>(99 / 100 :: rat) * 30\<rfloor> + 1 = 30"
    by code_simp
  have k2: "\<lfloor>(0 :: rat) * 30\<rfloor> + 1 = 1"
    by simp
  have s1: "setDate_plus london_2026 1790465400000 30 = 1793061000000"
    by (simp add: setDate_plus_def UTC_def LocalTime_def london_2026_def ms_per_day_def)
  have s2: "setDate_plus new_york_2026 1772929800000 1 = 1773012600000"
    by (simp add: setDate_plus_def UTC_def LocalTime_def new_york_2026_def ms_per_day_def)
  have d1: "date (fst (generateEvent insertion_sort london_2026 late_september))
              = toISODate 1793061000000"
    by (simp only: generateEvent_date [OF insertion_sort_contract] r1 k1 c1 s1)
  have d2: "date (fst (generateEvent insertion_sort new_york_2026 early_march))
              = toISODate 1773012600000"
    by (simp only: generateEvent_date [OF insertion_sort_contract] r2 k2 c2 s2)
  have iso:
    "toISODate 1790465400000 = ''2026-09-26''"
    "toISODate 1793061000000 = ''2026-10-27''"
    "toISODate (1790465400000 + 31 * ms_per_day) = ''2026-10-27''"
    "toISODate 1793059200000 = ''2026-10-27''"
    "toISODate 1772929800000 = ''2026-03-08''"
    "toISODate 1773012600000 = ''2026-03-08''"
    by code_simp+
  show ?thesis
    unfolding d1 d2 c1 c2 using iso by (simp add: ms_per_day_def)
qed


text \<open>
  C9. Under the contracts of \<open>Math.random()\<close> and of the engine's sort, an event
  from \<open>generateEvent\<close> has a ticket price from 20 to 119, a capacity from 50 to 549 and
  exactly one genre, taken from the vocabulary. Its date is the UTC date of the instant
  reached by moving the local date of the call \<open>k\<close> calendar days ahead, for some \<open>k\<close>
  from 1 to 30. When the local UTC offset at that instant is the offset at the call, this
  is the calendar day \<open>k\<close> days after the UTC day of the call, which begins after the call;
  when the two offsets differ by less than a day, it is \<open>k - 1\<close> to \<open>k + 1\<close> calendar days
  after the UTC day of the call.
\<close>

theorem generateEvent_ranges:
  assumes "random_ok s" and "sort_contract srt" and "e = fst (generateEvent srt tz s)"
  shows "20 \<le> ticketPrice e \<and> ticketPrice e \<le> 119 \<and>
         50 \<le> capacity e \<and> capacity e \<le> 549 \<and>
         length (genre e) = 1 \<and> set (genre e) \<subseteq> set genres \<and>
         (\<exists>k. 1 \<le> k \<and> k \<le> 30 \<and>
              date e = toISODate (setDate_plus tz (clock s 0) k) \<and>
              (offset_at_local tz (LocalTime tz (clock s 0) + k * ms_per_day)
                 = offset_at_utc tz (clock s 0) \<longrightarrow>
                 date e = toISODate (clock s 0 + k * ms_per_day) \<and>
                 date e = iso_date_of_day (clock s 0 div ms_per_day + k) \<and>
                 clock s 0 < (clock s 0 div ms_per_day + k) * ms_per_day) \<and>
              (\<bar>offset_at_utc tz (clock s 0)
                  - offset_at_local tz (LocalTime tz (clock s 0) + k * ms_per_day)\<bar> < ms_per_day \<longrightarrow>
                 (\<exists>j. k - 1 \<le> j \<and> j \<le> k + 1 \<and>
                      date e = iso_date_of_day (clock s 0 div ms_per_day + j))))"
proof -
  define s1 where "s1 = snd (getRandomGenres srt 1 s)"
  define s2 where "s2 = snd (Date_now s1)"
  define r where "r = fst (Math_random s2)"
  define s4 where "s4 = snd (getRandomEventTitle (snd (Math_random s2)))"
  define s6 where "s6 = snd (getRandomTime (snd (getRandomEventDescription s4)))"
  define s8 where "s8 = snd (getRandomAddress (snd (getRandomVenue s6)))"
  define s10 where "s10 = snd (getRandomState (snd (getRandomCity s8)))"
  define s11 where "s11 = snd (generateZipCode s10)"
  define rp where "rp = fst (Math_random s11)"
  define rc where "rc = fst (Math_random (snd (Math_random s11)))"
  note g = getRandomGenres_facts [OF assms(2), where s = s and n = 1]
  have ok1: "random_ok s1"
    unfolding s1_def using assms(1) by (rule g(1))
  then have ok2: "random_ok s2"
    by (simp add: s2_def)
  then have ok11: "random_ok s11"
    by (simp add: s11_def s10_def s8_def s6_def s4_def)
  have r: "0 \<le> r" "r < 1" using ok2 by (simp_all add: r_def)
  have rp: "0 \<le> rp" "rp < 1" using ok11 by (simp_all add: rp_def)
  have rc: "0 \<le> rc" "rc < 1" using ok11 by (simp_all add: rc_def)
  have fields:
    "ticketPrice e = \<lfloor>rp * 100\<rfloor> + 20"
    "capacity e = \<lfloor>rc * 500\<rfloor> + 50"
    "genre e = fst (getRandomGenres srt 1 s)"
    unfolding assms(3)
    by (simp_all add: generateEvent_def split_beta Let_def s1_def s2_def r_def s11_def s10_def s8_def s6_def
        s4_def rp_def rc_def)
  have price: "20 \<le> ticketPrice e \<and> ticketPrice e \<le> 119"
    using floor_scale [of rp 100] rp by (simp add: fields)
  have cap: "50 \<le> capacity e \<and> capacity e \<le> 549"
    using floor_scale [of rc 500] rc by (simp add: fields)
  have gen: "length (genre e) = 1 \<and> set (genre e) \<subseteq> set genres"
    using g(3) g(4) by (simp add: fields)
  define k where "k = \<lfloor>r * 30\<rfloor> + 1"
  define now where "now = clock s 0"
  define dl where "dl = offset_at_utc tz now - offset_at_local tz (LocalTime tz now + k * ms_per_day)"
  have k: "1 \<le> k" "k \<le> 30"
    using floor_scale [of r 30] r by (simp_all add: k_def)
  have d: "date e = toISODate (setDate_plus tz now k)"
    unfolding assms(3) generateEvent_date [OF assms(2)]
    by (simp add: k_def r_def s2_def s1_def now_def)
  have sh: "setDate_plus tz now k = now + k * ms_per_day + dl"
    unfolding dl_def by (rule setDate_plus_shift)
  have same: "date e = toISODate (now + k * ms_per_day) \<and>
              date e = iso_date_of_day (now div ms_per_day + k) \<and>
              now < (now div ms_per_day + k) * ms_per_day"
    if "offset_at_local tz (LocalTime tz now + k * ms_per_day) = offset_at_utc tz now"
  proof -
    have "dl = 0" using that by (simp add: dl_def)
    then have "date e = toISODate (now + k * ms_per_day)"
      using d sh by simp
    then show ?thesis
      using day_begins_later [OF k(1)] by (simp add: toISODate_shift)
  qed
  have near: "\<exists>j. k - 1 \<le> j \<and> j \<le> k + 1 \<and> date e = iso_date_of_day (now div ms_per_day + j)"
    if "\<bar>offset_at_utc tz now - offset_at_local tz (LocalTime tz now + k * ms_per_day)\<bar>
          < ms_per_day"
  proof -
    have "\<bar>dl\<bar> < ms_per_day" using that by (simp add: dl_def)
    from day_shift_bounds [OF this, of k now]
    obtain j where "k - 1 \<le> j" "j \<le> k + 1"
        "(now + k * ms_per_day + dl) div ms_per_day = now div ms_per_day + j"
      by blast
    then show ?thesis
      using d sh by (auto simp: toISODate_def)
  qed
  have "1 \<le> k \<and> k \<le> 30 \<and>
        date e = toISODate (setDate_plus tz now k) \<and>
        (offset_at_local tz (LocalTime tz now + k * ms_per_day) = offset_at_utc tz now \<longrightarrow>
           date e = toISODate (now + k * ms_per_day) \<and>
           date e = iso_date_of_day (now div ms_per_day + k) \<and>
           now < (now div ms_per_day + k) * ms_per_day) \<and>
        (\<bar>offset_at_utc tz now - offset_at_local tz (LocalTime tz now + k * ms_per_day)\<bar>
            < ms_per_day \<longrightarrow>
           (\<exists>j. k - 1 \<le> j \<and> j \<le> k + 1 \<and> date e = iso_date_of_day (now div ms_per_day + j)))"
    using k d same near by blast
  then show ?thesis
    using price cap gen unfolding now_def by blast
qed

theorem generateEvent_ranges_witness:
  "random_ok example_runtime \<and> sort_contract insertion_sort \<and>
   20 \<le> ticketPrice (fst (generateEvent insertion_sort utc_zone example_runtime)) \<and>
   ticketPrice (fst (generateEvent insertion_sort utc_zone example_runtime)) \<le> 119 \<and>
   50 \<le> capacity (fst (generateEvent insertion_sort utc_zone example_runtime)) \<and>
   capacity (fst (generateEvent insertion_sort utc_zone example_runtime)) \<le> 549 \<and>
   length (genre (fst (generateEvent insertion_sort utc_zone example_runtime))) = 1 \<and>
   (\<exists>k. 1 \<le> k \<and> k \<le> 30 \<and>
      date (fst (generateEvent insertion_sort utc_zone example_runtime))
        = toISODate (1793700000000 + k * ms_per_day)) \<and>
   (\<exists>j. 0 \<le> j \<and> j \<le> 31 \<and>
      date (fst (generateEvent insertion_sort london_2026 late_september))
        = iso_date_of_day (1790465400000 div ms_per_day + j))"
proof -
  have c: "clock example_runtime 0 = 1793700000000"
    by (simp add: example_runtime_def)
  have c': "clock late_september 0 = 1790465400000"
    by (simp add: late_september_def)
  have z: "offset_at_local utc_zone x = offset_at_utc utc_zone y" for x y
    by (simp add: utc_zone_def)
  have l: "\<bar>offset_at_utc london_2026 x - offset_at_local london_2026 y\<bar> < ms_per_day" for x y
    by (simp add: london_2026_def ms_per_day_def)
  have ok: "random_ok late_september"
    by (simp add: random_ok_def late_september_def)
  from generateEvent_ranges [OF example_runtime_ok insertion_sort_contract refl, of utc_zone]
  have A: "20 \<le> ticketPrice (fst (generateEvent insertion_sort utc_zone example_runtime)) \<and>
   ticketPrice (fst (generateEvent insertion_sort utc_zone example_runtime)) \<le> 119 \<and>
   50 \<le> capacity (fst (generateEvent insertion_sort utc_zone example_runtime)) \<and>
   capacity (fst (generateEvent insertion_sort utc_zone example_runtime)) \<le> 549 \<and>
   length (genre (fst (generateEvent insertion_sort utc_zone example_runtime))) = 1 \<and>
   (\<exists>k. 1 \<le> k \<and> k \<le> 30 \<and>
      date (fst (generateEvent insertion_sort utc_zone example_runtime))
        = toISODate (1793700000000 + k * ms_per_day))"
    unfolding c using z by blast
  from generateEvent_ranges [OF ok insertion_sort_contract refl, of london_2026]
  obtain k j where "1 \<le> k" "k \<le> 30" "k - 1 \<le> j" "j \<le> k + 1"
    "date (fst (generateEvent insertion_sort london_2026 late_september))
        = iso_date_of_day (1790465400000 div ms_per_day + j)"
    unfolding c' using l by blast
  then have B: "\<exists>j. 0 \<le> j \<and> j \<le> 31 \<and>
      date (fst (generateEvent insertion_sort london_2026 late_september))
        = iso_date_of_day (1790465400000 div ms_per_day + j)"
    by (intro exI [of _ j]) simp
  show ?thesis
    using A B example_runtime_ok insertion_sort_contract by blast
qed


end
